theory Spec2Isabelle
  imports Complex_Main "HOL-Library.Sublist"
begin

section \<open>JavaScript strings and POSIX paths\<close>

text \<open>
  Strings are \<^typ>\<open>string\<close>. \<open>splitc c s\<close> is \<^verbatim>\<open>s.split(c)\<close> for a one-character
  separator: it never returns the empty array, and an empty input gives one empty piece.
  \<open>joinc c\<close> is \<^verbatim>\<open>Array.prototype.join\<close>.
\<close>

fun splitc :: "char \<Rightarrow> string \<Rightarrow> string list" where
  "splitc c [] = [[]]"
| "splitc c (x # xs) =
     (if x = c then [] # splitc c xs
      else (case splitc c xs of [] \<Rightarrow> [[x]] | w # ws \<Rightarrow> (x # w) # ws))"

fun joinc :: "char \<Rightarrow> string list \<Rightarrow> string" where
  "joinc c [] = []"
| "joinc c [s] = s"
| "joinc c (s # t # ts) = s @ c # joinc c (t # ts)"

definition startsWith :: "string \<Rightarrow> string \<Rightarrow> bool" where
  "startsWith s p = (take (length p) s = p)"

definition endsWith :: "string \<Rightarrow> string \<Rightarrow> bool" where
  "endsWith s p = (length p \<le> length s \<and> drop (length s - length p) s = p)"

text \<open>
  The functions of \<^verbatim>\<open>node:path\<close> (POSIX flavour) that the repository calls.
  \<open>normalizeString\<close> is Node's segment normaliser: empty and \<^verbatim>\<open>.\<close> segments vanish, a
  \<^verbatim>\<open>..\<close> removes the segment before it, and a \<^verbatim>\<open>..\<close> with nothing to remove is kept
  only when \<open>allowAboveRoot\<close> holds. The stack is kept reversed (top first).
\<close>

fun norm_step :: "bool \<Rightarrow> string list \<Rightarrow> string \<Rightarrow> string list" where
  "norm_step allowAboveRoot st seg =
     (if seg = [] \<or> seg = ''.'' then st
      else if seg = ''..'' then
        (case st of
           [] \<Rightarrow> if allowAboveRoot then [''..''] else []
         | t # ts \<Rightarrow> if t = ''..'' then (if allowAboveRoot then ''..'' # st else st) else ts)
      else seg # st)"

definition normalizeString :: "bool \<Rightarrow> string list \<Rightarrow> string list" where
  "normalizeString allowAboveRoot segs = rev (foldl (norm_step allowAboveRoot) [] segs)"

definition isAbsolute :: "string \<Rightarrow> bool" where
  "isAbsolute p = (p \<noteq> [] \<and> hd p = CHR ''/'')"

definition abs_path :: "string list \<Rightarrow> string" where
  "abs_path segs = CHR ''/'' # joinc CHR ''/'' segs"

text \<open>
  \<^verbatim>\<open>path.resolve(base, p)\<close> for an absolute \<open>base\<close>: the arguments are taken from the
  right until an absolute one is found, empty arguments are skipped, and the result is
  normalised without a trailing slash. \<open>resolve_segs\<close> gives the segments of the result.
\<close>

definition resolve_segs :: "string \<Rightarrow> string \<Rightarrow> string list" where
  "resolve_segs base p =
     normalizeString False
       (splitc CHR ''/''
          (if p = [] then base else if isAbsolute p then p else base @ ''/'' @ p))"

definition path_resolve :: "string \<Rightarrow> string \<Rightarrow> string" where
  "path_resolve base p = abs_path (resolve_segs base p)"

text \<open>
  \<^verbatim>\<open>path.relative(from, to)\<close> resolves both arguments, drops their common leading
  segments, and climbs out of what is left of \<open>from\<close> with one \<^verbatim>\<open>..\<close> per segment.
\<close>

fun strip_common :: "string list \<Rightarrow> string list \<Rightarrow> string list \<times> string list" where
  "strip_common (x # xs) (y # ys) = (if x = y then strip_common xs ys else (x # xs, y # ys))"
| "strip_common xs ys = (xs, ys)"

definition path_relative :: "string \<Rightarrow> string \<Rightarrow> string" where
  "path_relative from to =
     (case strip_common (resolve_segs from []) (resolve_segs to []) of
        (fr, tr) \<Rightarrow> joinc CHR ''/'' (replicate (length fr) ''..'' @ tr))"

text \<open>
  \<^verbatim>\<open>path.normalize\<close> and \<^verbatim>\<open>path.join\<close> of two arguments (empty arguments are skipped;
  a trailing slash survives normalisation).
\<close>

definition path_normalize :: "string \<Rightarrow> string" where
  "path_normalize p =
     (if p = [] then ''.''
      else let isAbs = isAbsolute p;
               trailing = (last p = CHR ''/'');
               s = joinc CHR ''/'' (normalizeString (\<not> isAbs) (splitc CHR ''/'' p))
           in if s = [] then (if isAbs then ''/'' else if trailing then ''./'' else ''.'')
              else (if isAbs then ''/'' else []) @ s @ (if trailing then ''/'' else []))"

definition path_join :: "string \<Rightarrow> string \<Rightarrow> string" where
  "path_join a b =
     (if a = [] \<and> b = [] then ''.''
      else path_normalize (if a = [] then b else if b = [] then a else a @ ''/'' @ b))"

text \<open>
  \<^verbatim>\<open>path.dirname\<close>: trailing slashes are ignored, the text before the last remaining
  slash is returned, \<^verbatim>\<open>.\<close> (or \<^verbatim>\<open>/\<close>) when there is none.
\<close>

definition dirname :: "string \<Rightarrow> string" where
  "dirname p =
     (if p = [] then ''.''
      else let r = dropWhile (\<lambda>c. c \<noteq> CHR ''/'') (dropWhile (\<lambda>c. c = CHR ''/'') (rev (tl p)))
           in if r = [] then (if hd p = CHR ''/'' then ''/'' else ''.'')
              else if hd p = CHR ''/'' \<and> length r = 1 then ''//''
              else take (length r) p)"

text \<open>
  The last segment of a path (trailing slashes ignored), \<^verbatim>\<open>path.extname\<close> (from the last
  dot of the last segment, empty when that dot is missing or leads the segment, or the
  segment is \<^verbatim>\<open>..\<close>) and \<^verbatim>\<open>path.basename(p, ext)\<close>.
\<close>

definition last_segment :: "string \<Rightarrow> string" where
  "last_segment p = rev (takeWhile (\<lambda>c. c \<noteq> CHR ''/'') (dropWhile (\<lambda>c. c = CHR ''/'') (rev p)))"

definition extname :: "string \<Rightarrow> string" where
  "extname p =
     (let b = last_segment p;
          after = rev (takeWhile (\<lambda>c. c \<noteq> CHR ''.'') (rev b))
      in if CHR ''.'' \<notin> set b then []
         else if length after + 1 = length b then []
         else if b = ''..'' then []
         else CHR ''.'' # after)"

definition basename :: "string \<Rightarrow> string \<Rightarrow> string" where
  "basename p ext =
     (let b = last_segment p
      in if ext \<noteq> [] \<and> ext = p then []
         else if ext \<noteq> [] \<and> endsWith b ext \<and> b \<noteq> ext then take (length b - length ext) b
         else b)"

section \<open>Path Safety Resolver (path-utils.ts)\<close>

datatype error = InvalidPath | MkdirFailed | ExtractFailed | RenameFailed

definition resolveSafePath :: "string \<Rightarrow> string \<Rightarrow> error + string" where
  "resolveSafePath targetDir relPath =
     (let abs = path_resolve targetDir relPath;
          rel = path_relative targetDir abs
      in if startsWith rel ''..'' \<or> isAbsolute rel then Inl InvalidPath else Inr abs)"


section \<open>JavaScript numbers\<close>

text \<open>
  JavaScript numbers are IEEE 754 doubles. A finite double is modelled by the number it
  stands for, and \<open>'a number\<close> adds \<open>NaN\<close> and the two infinities: a \<open>real number\<close> is the
  result of \<^verbatim>\<open>parseFloat\<close>, an \<open>int number\<close> is a double whose value is an integer, as
  \<^verbatim>\<open>parseInt\<close> and \<^verbatim>\<open>stat.size\<close> give.
\<close>

datatype 'a number = Finite 'a | NaN | PosInfinity | NegInfinity

type_synonym jsnumber = "real number"

text \<open>
  \<open>to_double\<close> rounds a real to the nearest double, a tie to the even significand, as
  every arithmetic operation on doubles rounds its exact result. \<open>scale\<close> brings the
  magnitude into \<open>[2^52, 2^53)\<close> by powers of two, not below the exponent \<open>-1074\<close> of the
  subnormal numbers; its first argument bounds the number of steps, and 2200 is more than
  the exponent range of a double. The doubles rounded here are durations and times in
  seconds: a product with a ratio below 1, a difference with 0.2 and a quotient of small
  constants, none of which overflows.
\<close>

function scale :: "nat \<Rightarrow> real \<Rightarrow> int \<Rightarrow> real \<times> int" where
  "scale n y e =
     (if n = 0 then (y, e)
      else if 2 ^ 53 \<le> y then scale (n - 1) (y / 2) (e + 1)
      else if y < 2 ^ 52 \<and> - 1074 < e then scale (n - 1) (y * 2) (e - 1)
      else (y, e))"
  by pat_completeness auto
termination
  by (relation "measure (\<lambda>(n, y, e). n)") auto

declare scale.simps [simp del]

definition round_half_even :: "real \<Rightarrow> int" where
  "round_half_even y =
     (let f = \<lfloor>y\<rfloor>; r = y - of_int f
      in if r < 1 / 2 then f else if 1 / 2 < r then f + 1 else if even f then f else f + 1)"

definition to_double_pos :: "real \<Rightarrow> real" where
  "to_double_pos x =
     (case scale 2200 x 0 of
        (y, e) \<Rightarrow> if 0 \<le> e then of_int (round_half_even y) * 2 ^ nat e
                  else of_int (round_half_even y) / 2 ^ nat (- e))"

definition to_double :: "real \<Rightarrow> real" where
  "to_double x = (if x = 0 then 0 else if 0 < x then to_double_pos x else - to_double_pos (- x))"

text \<open>
  The double nearest to an integer. \<open>shift53 n\<close> is the number of low bits that do not fit
  into 53 bits; \<open>round53\<close> rounds them away, a tie to the even significand, and is \<open>None\<close>
  when the result is beyond the largest double, which gives an infinity.
\<close>

definition MAX_SAFE_INTEGER :: int where
  "MAX_SAFE_INTEGER = 9007199254740991"

function shift53 :: "nat \<Rightarrow> nat" where
  "shift53 n = (if n < 2 ^ 53 then 0 else Suc (shift53 (n div 2)))"
  by pat_completeness auto
termination
  by (relation "measure (\<lambda>n. n)") auto

declare shift53.simps [simp del]

definition round53 :: "nat \<Rightarrow> nat option" where
  "round53 n =
     (let sh = shift53 n;
          q = n div 2 ^ sh;
          r = n mod 2 ^ sh;
          m = (if 2 ^ sh < 2 * r \<or> (2 * r = 2 ^ sh \<and> odd q) then q + 1 else q) * 2 ^ sh
      in if 2 ^ 1024 \<le> m then None else Some m)"

definition double_of_int :: "int \<Rightarrow> int number" where
  "double_of_int i =
     (case round53 (nat \<bar>i\<bar>) of
        None \<Rightarrow> if i < 0 then NegInfinity else PosInfinity
      | Some m \<Rightarrow> Finite (if i < 0 then - int m else int m))"

text \<open>The comparisons \<^verbatim>\<open><\<close> and \<^verbatim>\<open>>=\<close>, false on \<open>NaN\<close>, and sum and difference.\<close>

fun js_less :: "int number \<Rightarrow> int number \<Rightarrow> bool" where
  "js_less (Finite x) (Finite y) = (x < y)"
| "js_less NaN b = False"
| "js_less a NaN = False"
| "js_less NegInfinity NegInfinity = False"
| "js_less NegInfinity b = True"
| "js_less PosInfinity b = False"
| "js_less (Finite x) PosInfinity = True"
| "js_less (Finite x) NegInfinity = False"

fun js_ge :: "int number \<Rightarrow> int number \<Rightarrow> bool" where
  "js_ge (Finite x) (Finite y) = (y \<le> x)"
| "js_ge NaN b = False"
| "js_ge a NaN = False"
| "js_ge PosInfinity b = True"
| "js_ge NegInfinity NegInfinity = True"
| "js_ge NegInfinity b = False"
| "js_ge (Finite x) NegInfinity = True"
| "js_ge (Finite x) PosInfinity = False"

fun js_add :: "int number \<Rightarrow> int number \<Rightarrow> int number" where
  "js_add (Finite x) (Finite y) = double_of_int (x + y)"
| "js_add NaN b = NaN"
| "js_add a NaN = NaN"
| "js_add PosInfinity NegInfinity = NaN"
| "js_add NegInfinity PosInfinity = NaN"
| "js_add PosInfinity b = PosInfinity"
| "js_add NegInfinity b = NegInfinity"
| "js_add (Finite x) b = b"

fun js_neg :: "int number \<Rightarrow> int number" where
  "js_neg (Finite x) = Finite (- x)"
| "js_neg NaN = NaN"
| "js_neg PosInfinity = NegInfinity"
| "js_neg NegInfinity = PosInfinity"

definition js_sub :: "int number \<Rightarrow> int number \<Rightarrow> int number" where
  "js_sub a b = js_add a (js_neg b)"

definition digit_char :: "nat \<Rightarrow> char" where
  "digit_char d = ''0123456789'' ! (d mod 10)"

function dec :: "nat \<Rightarrow> string" where
  "dec n = (if n < 10 then [digit_char n] else dec (n div 10) @ [digit_char (n mod 10)])"
  by pat_completeness auto
termination
  by (relation "measure (\<lambda>n. n)") auto

declare dec.simps [simp del]

text \<open>
  \<^verbatim>\<open>String(n)\<close> of an integer-valued double: the decimal digits for a magnitude below
  \<open>10^21\<close>. The route prints only such numbers unless a file is larger than that.
\<close>

definition toString :: "int number \<Rightarrow> string" where
  "toString v =
     (case v of
        NaN \<Rightarrow> ''NaN''
      | PosInfinity \<Rightarrow> ''Infinity''
      | NegInfinity \<Rightarrow> ''-Infinity''
      | Finite i \<Rightarrow> if i < 0 then CHR ''-'' # dec (nat (- i)) else dec (nat i))"

text \<open>
  \<^verbatim>\<open>x.toFixed(3)\<close>: the nearest multiple of \<open>1/1000\<close>, the larger one on a tie, printed
  with three decimals.
\<close>

definition pad3 :: "nat \<Rightarrow> string" where
  "pad3 n = [digit_char (n div 100 mod 10), digit_char (n div 10 mod 10), digit_char (n mod 10)]"

definition toFixed3 :: "real \<Rightarrow> string" where
  "toFixed3 x =
     (let a = \<bar>x\<bar>;
          n = nat \<lfloor>a * 1000 + 1 / 2\<rfloor>
      in (if x < 0 then ''-'' else []) @ dec (n div 1000) @ ''.'' @ pad3 (n mod 1000))"

section \<open>Persistent Index: the \<^verbatim>\<open>videos\<close> table\<close>

text \<open>
  The table \<^verbatim>\<open>videos\<close>. \<^verbatim>\<open>path\<close> is the primary key, so the table is a map from
  the path to the other columns of its row; the nullable columns are options.
\<close>

record row =
  folder :: string
  name :: string
  duration :: "real option"
  createdAt :: "int option"
  thumb :: "string option"
  updatedAt :: "int option"
  thumbError :: "int option"

type_synonym table = "string \<rightharpoonup> row"

text \<open>
  The two statements of \<^verbatim>\<open>indexSingle\<close>. The first inserts a row or, on a conflict on
  \<^verbatim>\<open>path\<close>, overwrites every column. The second inserts a row with null
  \<^verbatim>\<open>duration\<close>, \<^verbatim>\<open>createdAt\<close> and \<^verbatim>\<open>thumb\<close> or, on a conflict, sets only
  \<^verbatim>\<open>updatedAt\<close>, \<^verbatim>\<open>thumbError\<close> and \<^verbatim>\<open>thumb\<close>.
\<close>

definition upsertSuccess ::
  "string \<Rightarrow> string \<Rightarrow> string \<Rightarrow> real option \<Rightarrow> int \<Rightarrow> string \<Rightarrow> int \<Rightarrow> table \<Rightarrow> table" where
  "upsertSuccess rel fld nm dur created thumbRel upd t =
     t(rel \<mapsto> \<lparr>folder = fld, name = nm, duration = dur,
                 createdAt = Some created, thumb = Some thumbRel,
                 updatedAt = Some upd, thumbError = Some 0\<rparr>)"

definition upsertFailure :: "string \<Rightarrow> string \<Rightarrow> string \<Rightarrow> int \<Rightarrow> table \<Rightarrow> table" where
  "upsertFailure rel fld nm upd t =
     (case t rel of
        None \<Rightarrow>
          t(rel \<mapsto> \<lparr>folder = fld, name = nm, duration = None,
                      createdAt = None, thumb = None,
                      updatedAt = Some upd, thumbError = Some 1\<rparr>)
      | Some r \<Rightarrow>
          t(rel \<mapsto> r\<lparr>updatedAt := Some upd, thumbError := Some 1, thumb := None\<rparr>))"

definition deleteByPath :: "string \<Rightarrow> table \<Rightarrow> table" where
  "deleteByPath p t = t(p := None)"

section \<open>Indexing (video-index.ts and the batch tool)\<close>

text \<open>
  What a generated image file holds: the video it was taken from, the \<^verbatim>\<open>-ss\<close> argument
  given to \<^verbatim>\<open>ffmpeg\<close>, and its size in bytes. The thumbnail area of the file system is a
  map from absolute paths to such files.
\<close>

record frame =
  source :: string
  seek :: string
  bytes :: nat

type_synonym files = "string \<rightharpoonup> frame"

text \<open>
  The configuration and the outside world. \<open>ffprobe p\<close> is \<open>None\<close> when the subprocess
  fails and otherwise the \<^verbatim>\<open>parseFloat\<close> of its trimmed output, a double; \<open>ffmpeg ss i out\<close> is
  \<open>None\<close> when the subprocess fails and otherwise the size of the image it wrote to
  \<open>out\<close>; \<open>mkdir_ok\<close>, \<open>rename_ok\<close> and \<open>unlink_ok\<close> say whether the file system call
  succeeds; \<open>sha1_hex\<close> is the hexadecimal SHA-1 digest; \<open>date_now\<close> is \<^verbatim>\<open>Date.now()\<close>.
\<close>

record env =
  targetDir :: string
  SMART_THUMB :: bool
  sha1_hex :: "string \<Rightarrow> string"
  ffprobe :: "string \<Rightarrow> jsnumber option"
  ffmpeg :: "string \<Rightarrow> string \<Rightarrow> string \<Rightarrow> nat option"
  mkdir_ok :: "string \<Rightarrow> bool"
  rename_ok :: "string \<Rightarrow> string \<Rightarrow> bool"
  unlink_ok :: "string \<Rightarrow> bool"
  date_now :: real

definition thumbsDir :: "env \<Rightarrow> string" where
  "thumbsDir e = path_join (targetDir e) ''.thumbs.db''"

definition thumbsImageDir :: "env \<Rightarrow> string" where
  "thumbsImageDir e = path_join (thumbsDir e) ''thumbs''"

definition getThumbRelPath :: "env \<Rightarrow> string \<Rightarrow> string" where
  "getThumbRelPath e relPath = path_join ''thumbs'' (take 16 (sha1_hex e relPath) @ ''.jpg'')"

definition probeDuration :: "env \<Rightarrow> string \<Rightarrow> real option" where
  "probeDuration e filePath =
     (case ffprobe e filePath of
        None \<Rightarrow> None
      | Some (Finite v) \<Rightarrow> Some v
      | Some _ \<Rightarrow> None)"

definition clampTime :: "real \<Rightarrow> real \<Rightarrow> real" where
  "clampTime v d =
     (if d \<le> 0 then 1 else min (max v 1) (max 1 (to_double (d - to_double (2 / 10)))))"

definition picks :: "real list" where
  "picks = map (\<lambda>i. to_double ((real i + 1 / 2) / 5)) [0..<5]"

definition tmpPath :: "string \<Rightarrow> nat \<Rightarrow> string" where
  "tmpPath outputPath i = outputPath @ ''.tmp-'' @ dec i @ ''.jpg''"

text \<open>
  One smart-mode candidate: \<^verbatim>\<open>ffmpeg\<close> at the clamped time into the temporary file, then
  \<^verbatim>\<open>fs.stat\<close>. The result is the candidate's \<^verbatim>\<open>{ path, size }\<close>, or \<open>None\<close> when the
  promise rejects.
\<close>

definition candidate :: "env \<Rightarrow> string \<Rightarrow> string \<Rightarrow> real \<Rightarrow> real \<times> nat \<Rightarrow> (string \<times> nat) option" where
  "candidate e inputPath outputPath d pick =
     (case pick of (ratio, index) \<Rightarrow>
        (case ffmpeg e (toFixed3 (clampTime (to_double (d * ratio)) d)) inputPath
                (tmpPath outputPath index) of
           None \<Rightarrow> None
         | Some sz \<Rightarrow> Some (tmpPath outputPath index, sz)))"

definition written :: "env \<Rightarrow> string \<Rightarrow> string \<Rightarrow> real \<Rightarrow> files \<Rightarrow> real \<times> nat \<Rightarrow> files" where
  "written e inputPath outputPath d fs pick =
     (case candidate e inputPath outputPath d pick of
        None \<Rightarrow> fs
      | Some (p, sz) \<Rightarrow>
          fs(p \<mapsto> \<lparr>source = inputPath, seek = toFixed3 (clampTime (to_double (d * fst pick)) d),
               bytes = sz\<rparr>))"

text \<open>
  \<^verbatim>\<open>candidates.reduce((prev, current) => current.size > prev.size ? current : prev)\<close>:
  no initial value, so the first candidate starts as \<open>prev\<close>.
\<close>

definition best_of :: "(string \<times> nat) list \<Rightarrow> string \<times> nat" where
  "best_of cs = foldl (\<lambda>prev cur. if snd cur > snd prev then cur else prev) (hd cs) (tl cs)"

definition unlink :: "env \<Rightarrow> string \<Rightarrow> files \<Rightarrow> files" where
  "unlink e p fs = (if unlink_ok e p then fs(p := None) else fs)"

text \<open>
  \<open>makeThumbnail\<close> returns \<open>None\<close> when its promise resolves and the error when it
  rejects, with the file system it leaves. In smart mode the five candidates run under
  \<^verbatim>\<open>Promise.all\<close>: every subprocess runs and writes what it can, and the combined promise
  rejects as soon as one of them rejects.
\<close>

definition makeThumbnail ::
  "env \<Rightarrow> string \<Rightarrow> string \<Rightarrow> real option \<Rightarrow> files \<Rightarrow> error option \<times> files" where
  "makeThumbnail e inputPath outputPath dur fs =
     (if \<not> mkdir_ok e (dirname outputPath) then (Some MkdirFailed, fs)
      else
        let hasDuration = (case dur of None \<Rightarrow> False | Some d \<Rightarrow> d \<noteq> 0 \<and> d > 0)
        in if \<not> hasDuration \<or> \<not> SMART_THUMB e then
             (case ffmpeg e ''00:00:01'' inputPath outputPath of
                None \<Rightarrow> (Some ExtractFailed, fs)
              | Some sz \<Rightarrow>
                  (None, fs(outputPath \<mapsto> \<lparr>source = inputPath, seek = ''00:00:01'', bytes = sz\<rparr>)))
           else
             let d = the dur;
                 results = map (candidate e inputPath outputPath d) (zip picks [0..<5]);
                 fs1 = foldl (written e inputPath outputPath d) fs (zip picks [0..<5])
             in if None \<in> set results then (Some ExtractFailed, fs1)
                else
                  let candidates = map the results;
                      best = best_of candidates
                  in if \<not> rename_ok e (fst best) outputPath then (Some RenameFailed, fs1)
                     else
                       let fs2 = fs1(outputPath := fs1 (fst best), fst best := None)
                       in (None,
                           foldl (\<lambda>f c. unlink e (fst c) f) fs2
                             (filter (\<lambda>item. fst item \<noteq> fst best) candidates)))"

text \<open>
  A file found by \<^verbatim>\<open>findVideos\<close>: absolute path, path relative to the target
  directory, and the three times of \<^verbatim>\<open>fs.stat\<close> in milliseconds.
\<close>

record fstat =
  mtimeMs :: real
  birthtimeMs :: real
  ctimeMs :: real

record videoFile =
  abs_v :: string
  rel :: string
  stat :: fstat

record state =
  db :: table
  disk :: files

text \<open>
  \<open>indexSingle\<close>: the \<^verbatim>\<open>try\<close> block ends in the first statement, the \<^verbatim>\<open>catch\<close> block
  in the second. \<open>probeDuration\<close> has caught its own failure, so only \<open>makeThumbnail\<close>
  can send control to the \<^verbatim>\<open>catch\<close> block.
\<close>

definition indexSingle :: "env \<Rightarrow> videoFile \<Rightarrow> int \<Rightarrow> string \<Rightarrow> state \<Rightarrow> state" where
  "indexSingle e f upd thumbRel st =
     (let dur = probeDuration e (abs_v f);
          created = \<lfloor>if birthtimeMs (stat f) \<noteq> 0 then birthtimeMs (stat f)
                    else if ctimeMs (stat f) \<noteq> 0 then ctimeMs (stat f) else date_now e\<rfloor>;
          nm = basename (abs_v f) (extname (abs_v f));
          fld = (if dirname (rel f) = ''.'' then [] else dirname (rel f));
          thumbAbs = path_join (thumbsDir e) thumbRel
      in case makeThumbnail e (abs_v f) thumbAbs dur (disk st) of
           (None, fs') \<Rightarrow>
             \<lparr>db = upsertSuccess (rel f) fld nm dur created thumbRel upd (db st), disk = fs'\<rparr>
         | (Some err, fs') \<Rightarrow>
             \<lparr>db = upsertFailure (rel f) fld (basename (rel f) (extname (rel f))) upd (db st),
              disk = fs'\<rparr>)"

text \<open>
  The decision of \<^verbatim>\<open>buildIndex\<close> for one file. \<open>existing\<close> is the row found for the
  file's relative path, \<open>thumbExists\<close> whether its thumbnail file is there, \<open>upd\<close> the
  floor of its modification time. \<open>rebuild\<close> is the batch tool's \<^verbatim>\<open>--rebuild\<close> flag;
  the server has no such flag, which is \<open>rebuild = False\<close>. \<^verbatim>\<open>!existing.duration\<close> holds
  for null and for zero.
\<close>

definition needsUpdate :: "bool \<Rightarrow> row option \<Rightarrow> bool \<Rightarrow> int \<Rightarrow> bool" where
  "needsUpdate rebuild existing thumbExists upd =
     (rebuild \<or>
      (case existing of
         None \<Rightarrow> True
       | Some r \<Rightarrow>
           (let hasThumbError = (thumbError r = Some 1)
            in (\<not> hasThumbError \<and> (\<not> thumbExists \<or> duration r = None \<or> duration r = Some 0))
               \<or> (case updatedAt r of None \<Rightarrow> 0 | Some u \<Rightarrow> u) < upd)))"

definition thumbAbsOf :: "env \<Rightarrow> videoFile \<Rightarrow> string" where
  "thumbAbsOf e f = path_join (thumbsDir e) (getThumbRelPath e (rel f))"

definition fileExists :: "files \<Rightarrow> string \<Rightarrow> bool" where
  "fileExists fs p = (fs p \<noteq> None)"

definition tasks :: "env \<Rightarrow> bool \<Rightarrow> videoFile list \<Rightarrow> state \<Rightarrow> videoFile list" where
  "tasks e rebuild found st =
     filter (\<lambda>f. needsUpdate rebuild (db st (rel f)) (fileExists (disk st) (thumbAbsOf e f))
                  \<lfloor>mtimeMs (stat f)\<rfloor>) found"

text \<open>
  One pass. \<open>found\<close> is what \<^verbatim>\<open>findVideos\<close> returned. The first loop reads the rows
  selected at the start and builds the task list; the second deletes every row whose path
  was not seen; then the tasks run. \<^verbatim>\<open>runWithConcurrency\<close> interleaves them at their
  \<^verbatim>\<open>await\<close>s; each task writes the row of its own path in one synchronous statement, and
  the model runs them one after the other in queue order.
\<close>

definition buildIndex :: "env \<Rightarrow> bool \<Rightarrow> videoFile list \<Rightarrow> state \<Rightarrow> error option \<times> state" where
  "buildIndex e rebuild found st =
     (if \<not> mkdir_ok e (thumbsImageDir e) \<or> \<not> mkdir_ok e (thumbsDir e) then (Some MkdirFailed, st)
      else
        let work = tasks e rebuild found st;
            seen = set (map rel found);
            st1 = st\<lparr>db := (\<lambda>p. if p \<in> seen then db st p else None)\<rparr>
        in (None,
            foldl (\<lambda>s f. indexSingle e f \<lfloor>mtimeMs (stat f)\<rfloor> (getThumbRelPath e (rel f)) s)
              st1 work))"

section \<open>Streaming Delivery: the video route\<close>

text \<open>
  \<^verbatim>\<open>parseInt(s, 10)\<close>: leading white space is skipped, one sign is read, then the longest
  run of decimal digits; no digit gives \<open>NaN\<close>, and the integer read is rounded to the
  nearest double.
\<close>

definition is_ws :: "char \<Rightarrow> bool" where
  "is_ws c = (c \<in> set [CHR '' '', CHR 0x09, CHR 0x0A, CHR 0x0B, CHR 0x0C, CHR 0x0D, CHR 0xA0])"

definition is_digit :: "char \<Rightarrow> bool" where
  "is_digit c = (c \<in> set ''0123456789'')"

definition digit_val :: "char \<Rightarrow> nat" where
  "digit_val c = length (takeWhile (\<lambda>x. x \<noteq> c) ''0123456789'')"

definition digits_val :: "string \<Rightarrow> nat" where
  "digits_val ds = foldl (\<lambda>a c. 10 * a + digit_val c) 0 ds"

definition parseInt :: "string \<Rightarrow> int number" where
  "parseInt s =
     (let t = dropWhile is_ws s;
          neg = (t \<noteq> [] \<and> hd t = CHR ''-'');
          u = (if t \<noteq> [] \<and> (hd t = CHR ''-'' \<or> hd t = CHR ''+'') then tl t else t);
          ds = takeWhile is_digit u
      in if ds = [] then NaN
         else double_of_int (if neg then - int (digits_val ds) else int (digits_val ds)))"

text \<open>\<^verbatim>\<open>s.replace(/pat/, "")\<close> for a literal pattern: the first occurrence is removed.\<close>

fun remove_first :: "string \<Rightarrow> string \<Rightarrow> string" where
  "remove_first pat [] = []"
| "remove_first pat (x # xs) =
     (if startsWith (x # xs) pat then drop (length pat) (x # xs) else x # remove_first pat xs)"

definition toLowerCase :: "string \<Rightarrow> string" where
  "toLowerCase s =
     map (\<lambda>c. case map_of (zip ''ABCDEFGHIJKLMNOPQRSTUVWXYZ'' ''abcdefghijklmnopqrstuvwxyz'') c of
                 None \<Rightarrow> c | Some l \<Rightarrow> l) s"

definition MIME :: "string \<rightharpoonup> string" where
  "MIME = map_of [(''.mp4'', ''video/mp4''), (''.mov'', ''video/quicktime''),
                  (''.mkv'', ''video/x-matroska''), (''.webm'', ''video/webm''),
                  (''.avi'', ''video/x-msvideo'')]"

record response =
  status :: nat
  headers :: "(string \<times> string) list"
  body :: "string option"

datatype route_error = StatFailed | ERR_OUT_OF_RANGE

text \<open>
  \<^verbatim>\<open>fs.createReadStream(path, { start, end })\<close> validates its bounds: \<open>start\<close> must be an
  integer from 0 to \<^verbatim>\<open>Number.MAX_SAFE_INTEGER\<close>; \<open>end'\<close> may be \<^verbatim>\<open>Infinity\<close>, which reads
  to the end of the file, and must otherwise be such an integer, not below \<open>start\<close>. The
  stream then yields the bytes from \<open>start\<close> to \<open>end'\<close> inclusive, as far as the file has
  them.
\<close>

definition createReadStream :: "string \<Rightarrow> int number \<Rightarrow> int number \<Rightarrow> route_error + string" where
  "createReadStream content start end' =
     (case start of
        Finite s \<Rightarrow>
          if s < 0 \<or> MAX_SAFE_INTEGER < s then Inl ERR_OUT_OF_RANGE
          else
            (case end' of
               PosInfinity \<Rightarrow> Inr (drop (nat s) content)
             | Finite e \<Rightarrow>
                 if e < 0 \<or> MAX_SAFE_INTEGER < e \<or> e < s then Inl ERR_OUT_OF_RANGE
                 else Inr (take (nat (e - s + 1)) (drop (nat s) content))
             | NaN \<Rightarrow> Inl ERR_OUT_OF_RANGE
             | NegInfinity \<Rightarrow> Inl ERR_OUT_OF_RANGE)
      | NaN \<Rightarrow> Inl ERR_OUT_OF_RANGE
      | PosInfinity \<Rightarrow> Inl ERR_OUT_OF_RANGE
      | NegInfinity \<Rightarrow> Inl ERR_OUT_OF_RANGE)"

text \<open>
  The handler. \<open>contents\<close> maps the absolute path of a file to its bytes; \<open>pathParam\<close> is
  the \<^verbatim>\<open>path\<close> query parameter and \<open>rangeHdr\<close> the \<^verbatim>\<open>Range\<close> header, \<open>None\<close> when absent.
  An empty string is falsy, like \<^verbatim>\<open>null\<close>. \<^verbatim>\<open>stat.size\<close> is the double nearest to the
  length of the file. \<open>Inl\<close> is an exception that leaves the handler: no response is
  built.
\<close>

definition GET ::
  "string \<Rightarrow> (string \<rightharpoonup> string) \<Rightarrow> string option \<Rightarrow> string option \<Rightarrow> route_error + response" where
  "GET tdir contents pathParam rangeHdr =
     (case pathParam of
        None \<Rightarrow> Inr \<lparr>status = 400, headers = [], body = Some ''Missing path''\<rparr>
      | Some relPath \<Rightarrow>
          if relPath = [] then Inr \<lparr>status = 400, headers = [], body = Some ''Missing path''\<rparr>
          else
            (case resolveSafePath tdir relPath of
               Inl err \<Rightarrow> Inr \<lparr>status = 400, headers = [], body = Some ''Invalid path''\<rparr>
             | Inr absPath \<Rightarrow>
                 (case contents absPath of
                    None \<Rightarrow> Inl StatFailed
                  | Some content \<Rightarrow>
                      let fileSize = double_of_int (int (length content));
                          contentType =
                            (case MIME (toLowerCase (extname absPath)) of
                               None \<Rightarrow> ''video/mp4'' | Some m \<Rightarrow> m)
                      in if rangeHdr \<noteq> None \<and> rangeHdr \<noteq> Some [] then
                           let parts = splitc CHR ''-'' (remove_first ''bytes='' (the rangeHdr));
                               start = parseInt (hd parts);
                               end' = (if length parts > 1 \<and> parts ! 1 \<noteq> []
                                      then parseInt (parts ! 1) else js_sub fileSize (Finite 1))
                           in if start = NaN \<or> js_ge start fileSize \<or> js_less end' start
                              then Inr \<lparr>status = 416,
                                        headers = [(''Content-Range'', ''bytes */'' @ toString fileSize)],
                                        body = None\<rparr>
                              else
                                let chunkSize = js_add (js_sub end' start) (Finite 1)
                                in (case createReadStream content start end' of
                                      Inl err \<Rightarrow> Inl err
                                    | Inr stream \<Rightarrow>
                                        Inr \<lparr>status = 206,
                                             headers =
                                               [(''Content-Range'',
                                                 ''bytes '' @ toString start @ ''-'' @ toString end'
                                                   @ ''/'' @ toString fileSize),
                                                (''Accept-Ranges'', ''bytes''),
                                                (''Content-Length'', toString chunkSize),
                                                (''Content-Type'', contentType)],
                                             body = Some stream\<rparr>)
                         else
                           Inr \<lparr>status = 200,
                                headers = [(''Content-Length'', toString fileSize),
                                           (''Content-Type'', contentType),
                                           (''Accept-Ranges'', ''bytes'')],
                                body = Some content\<rparr>)))"

section \<open>Opening the store: \<^verbatim>\<open>initDb\<close>\<close>

text \<open>
  The part of SQLite that \<^verbatim>\<open>initDb\<close> and the queries on \<^verbatim>\<open>videos\<close> rely on. A store
  either has no \<^verbatim>\<open>videos\<close> table or has one, with its columns (name and default value)
  and its rows. \<^verbatim>\<open>CREATE TABLE IF NOT EXISTS\<close> leaves an existing table as it is,
  whatever its columns; \<^verbatim>\<open>ALTER TABLE ADD COLUMN\<close> appends a column that reads as its
  default in every existing row; a \<^verbatim>\<open>SELECT\<close> naming a column the table lacks fails.
\<close>

datatype sqlval = SqlNull | SqlInt int | SqlReal real | SqlText string

record sqltable =
  columns :: "(string \<times> sqlval) list"
  rows :: "(string \<rightharpoonup> sqlval) list"

type_synonym store = "sqltable option"

datatype sqlerror = NoSuchTable | NoSuchColumn

definition createTableIfNotExists :: "(string \<times> sqlval) list \<Rightarrow> store \<Rightarrow> store" where
  "createTableIfNotExists cols d =
     (case d of None \<Rightarrow> Some \<lparr>columns = cols, rows = []\<rparr> | Some t \<Rightarrow> Some t)"

definition addColumn :: "string \<Rightarrow> sqlval \<Rightarrow> store \<Rightarrow> store" where
  "addColumn c dflt d =
     (case d of
        None \<Rightarrow> None
      | Some t \<Rightarrow> Some \<lparr>columns = columns t @ [(c, dflt)], rows = map (\<lambda>r. r(c \<mapsto> dflt)) (rows t)\<rparr>)"

definition table_info :: "store \<Rightarrow> string list" where
  "table_info d = (case d of None \<Rightarrow> [] | Some t \<Rightarrow> map fst (columns t))"

definition selectFrom :: "string list \<Rightarrow> store \<Rightarrow> sqlerror + sqlval list list" where
  "selectFrom cols d =
     (case d of
        None \<Rightarrow> Inl NoSuchTable
      | Some t \<Rightarrow>
          if \<exists>c \<in> set cols. c \<notin> set (map fst (columns t)) then Inl NoSuchColumn
          else Inr (map (\<lambda>r. map (\<lambda>c. case r c of None \<Rightarrow> SqlNull | Some v \<Rightarrow> v) cols) (rows t)))"

definition schema_without_thumbError :: "(string \<times> sqlval) list" where
  "schema_without_thumbError =
     [(''path'', SqlNull), (''folder'', SqlNull), (''name'', SqlNull), (''duration'', SqlNull),
      (''createdAt'', SqlNull), (''thumb'', SqlNull), (''updatedAt'', SqlNull)]"

definition schema_with_thumbError :: "(string \<times> sqlval) list" where
  "schema_with_thumbError = schema_without_thumbError @ [(''thumbError'', SqlInt 0)]"

text \<open>
  The three \<^verbatim>\<open>initDb\<close> of the repository. \<open>initDb_old\<close> is \<^verbatim>\<open>src/lib/db.ts\<close>, whose
  table has no \<^verbatim>\<open>thumbError\<close> column. \<open>initDb\<close> is the later \<^verbatim>\<open>db.ts\<close> of the server:
  its \<^verbatim>\<open>CREATE TABLE\<close> names the column, and the \<^verbatim>\<open>PRAGMA table_info\<close> check with its
  \<^verbatim>\<open>ALTER TABLE\<close> stands inside a comment, so it does not run. \<open>initDb_batch\<close> is the
  batch tool's, where the same check does run.
\<close>

definition initDb_old :: "store \<Rightarrow> store" where
  "initDb_old d = createTableIfNotExists schema_without_thumbError d"

definition initDb :: "store \<Rightarrow> store" where
  "initDb d = createTableIfNotExists schema_with_thumbError d"

definition initDb_batch :: "store \<Rightarrow> store" where
  "initDb_batch d =
     (let d1 = createTableIfNotExists schema_with_thumbError d;
          hasThumbError = (''thumbError'' \<in> set (table_info d1))
      in if \<not> hasThumbError then addColumn ''thumbError'' (SqlInt 0) d1 else d1)"

text \<open>The columns that \<^verbatim>\<open>buildIndex\<close> selects at the start of a pass.\<close>

definition existingRows :: "store \<Rightarrow> sqlerror + sqlval list list" where
  "existingRows d = selectFrom [''path'', ''updatedAt'', ''thumb'', ''duration'', ''thumbError''] d"

section \<open>Notions used by the statements\<close>



text \<open>
  The time \<^verbatim>\<open>duration * ratio\<close> that candidate \<open>k\<close> passes to \<open>clampTime\<close>, computed in
  doubles as the source computes it, and the upper end \<^verbatim>\<open>Math.max(1, duration - 0.2)\<close> of
  the interval.
\<close>

definition pickTime :: "real \<Rightarrow> nat \<Rightarrow> real" where
  "pickTime d k = to_double (d * to_double ((real k + 1 / 2) / 5))"

definition maxTime :: "real \<Rightarrow> real" where
  "maxTime d = max 1 (to_double (d - to_double (2 / 10)))"

text \<open>
  The decision as the specification words it: no record, or a modification time beyond
  the stored \<^verbatim>\<open>updatedAt\<close>, or no failure flag and a missing thumbnail or a null duration.
\<close>

definition needsIndexing_spec :: "row option \<Rightarrow> bool \<Rightarrow> real \<Rightarrow> bool" where
  "needsIndexing_spec existing thumbExists mtime =
     (case existing of
        None \<Rightarrow> True
      | Some r \<Rightarrow>
          real_of_int (case updatedAt r of None \<Rightarrow> 0 | Some u \<Rightarrow> u) < mtime
          \<or> (thumbError r \<noteq> Some 1 \<and> (\<not> thumbExists \<or> duration r = None)))"

text \<open>
  The writes to the table, as data, so that every state reachable from the empty table
  is \<open>run ws\<close> for some list \<open>ws\<close> of writes.
\<close>

datatype db_write =
    Success string string string "real option" int string int
  | Failure string string string int
  | Delete string

fun apply_write :: "table \<Rightarrow> db_write \<Rightarrow> table" where
  "apply_write t (Success p fld nm dur created thumbRel upd) =
     upsertSuccess p fld nm dur created thumbRel upd t"
| "apply_write t (Failure p fld nm upd) = upsertFailure p fld nm upd t"
| "apply_write t (Delete p) = deleteByPath p t"

definition run :: "db_write list \<Rightarrow> table" where
  "run ws = foldl apply_write Map.empty ws"

text \<open>One pass of the server over the files found, and the state it leaves.\<close>

definition pass :: "env \<Rightarrow> videoFile list \<Rightarrow> state \<Rightarrow> state" where
  "pass e found st = snd (buildIndex e False found st)"

definition probe_failed :: "env \<Rightarrow> string \<Rightarrow> bool" where
  "probe_failed e p = (case ffprobe e p of None \<Rightarrow> True | Some (Finite v) \<Rightarrow> False | Some _ \<Rightarrow> True)"

section \<open>Concrete inputs\<close>

text \<open>
  A configuration in which every external call succeeds, one video file, and its
  thumbnail path; the closed statements below change single fields of these.
\<close>

definition env_ok :: env where
  "env_ok =
     \<lparr>targetDir = ''/v'', SMART_THUMB = False,
      sha1_hex = (\<lambda>s. ''da39a3ee5e6b4b0d3255bfef95601890afd80709''),
      ffprobe = (\<lambda>p. Some (Finite 100)),
      ffmpeg = (\<lambda>ss i out. Some 7),
      mkdir_ok = (\<lambda>p. True), rename_ok = (\<lambda>a b. True), unlink_ok = (\<lambda>p. True),
      date_now = 0\<rparr>"

definition file_a :: videoFile where
  "file_a = \<lparr>abs_v = ''/v/a.mp4'', rel = ''a.mp4'',
             stat = \<lparr>mtimeMs = 1000, birthtimeMs = 0, ctimeMs = 900\<rparr>\<rparr>"

definition thumb_a :: string where
  "thumb_a = ''/v/.thumbs.db/thumbs/da39a3ee5e6b4b0d.jpg''"

definition frame_a :: frame where
  "frame_a = \<lparr>source = ''/v/a.mp4'', seek = ''00:00:01'', bytes = 7\<rparr>"

text \<open>
  Smart mode with five candidates of sizes 10, 40, 25, 40 and 5 bytes, in which the
  third temporary file cannot be deleted.
\<close>

definition env_sizes :: env where
  "env_sizes =
     env_ok\<lparr>SMART_THUMB := True,
            ffmpeg := (\<lambda>ss i out.
              if out = thumb_a @ ''.tmp-0.jpg'' then Some 10
              else if out = thumb_a @ ''.tmp-1.jpg'' then Some 40
              else if out = thumb_a @ ''.tmp-2.jpg'' then Some 25
              else if out = thumb_a @ ''.tmp-3.jpg'' then Some 40
              else Some 5),
            unlink_ok := (\<lambda>p. p \<noteq> thumb_a @ ''.tmp-2.jpg'')\<rparr>"

text \<open>
  The same sizes for a video of one and a half seconds, in which the last two temporary
  files cannot be deleted.
\<close>

definition env_short :: env where
  "env_short =
     env_sizes\<lparr>unlink_ok := (\<lambda>p. p \<noteq> thumb_a @ ''.tmp-3.jpg'' \<and> p \<noteq> thumb_a @ ''.tmp-4.jpg'')\<rparr>"

text \<open>File contents for the video route: one file of ten bytes, one of a thousand.\<close>

definition contents_a :: "string \<rightharpoonup> string" where
  "contents_a = [''/v/a.mp4'' \<mapsto> ''abcdefghij'', ''/v/k.mp4'' \<mapsto> replicate 1000 CHR ''x'']"


text \<open>
  A store as \<^verbatim>\<open>src/lib/db.ts\<close> creates it, with one row written under that schema.
\<close>

definition old_store :: store where
  "old_store =
     Some \<lparr>columns = schema_without_thumbError,
           rows = [[''path'' \<mapsto> SqlText ''a.mp4'', ''folder'' \<mapsto> SqlText [],
                    ''name'' \<mapsto> SqlText ''a'', ''duration'' \<mapsto> SqlReal 10,
                    ''createdAt'' \<mapsto> SqlInt 900,
                    ''thumb'' \<mapsto> SqlText ''thumbs/da39a3ee5e6b4b0d.jpg'',
                    ''updatedAt'' \<mapsto> SqlInt 1000]]\<rparr>"

definition empty_state :: state where
  "empty_state = \<lparr>db = Map.empty, disk = Map.empty\<rparr>"

section \<open>Path safety\<close>

subsection \<open>Splitting, joining and normalising\<close>



lemma splitc_append_sep:
  "c \<notin> set s \<Longrightarrow> splitc c (s @ c # t) = s # splitc c t"
  by (induction s) auto

lemma splitc_no_sep_id: "c \<notin> set s \<Longrightarrow> splitc c s = [s]"
  by (induction s) auto















subsection \<open>The resolver\<close>



section \<open>The decision to index a file\<close>

text \<open>
  Claim C1, as amended. A file that Discovery found is put on the work list of a pass
  exactly when the batch tool's rebuild flag is set, or there is no row for its relative
  path, or the floor of its modification time in milliseconds is beyond the stored
  \<^verbatim>\<open>updatedAt\<close> (a null \<^verbatim>\<open>updatedAt\<close> read as 0), or the row's
  \<^verbatim>\<open>thumbError\<close> is not 1 and the thumbnail file is missing or the stored duration is
  null or zero. For a row whose \<^verbatim>\<open>thumbError\<close> is 1 the server's pass retries the file
  only on the modification time, whatever the thumbnail file and the duration are.
\<close>

theorem needsUpdate_decision:
  assumes "f \<in> set found"
  shows "(f \<in> set (tasks e rebuild found st) \<longleftrightarrow>
            (rebuild \<or> db st (rel f) = None
             \<or> (\<exists>r. db st (rel f) = Some r
                    \<and> ((case updatedAt r of None \<Rightarrow> 0 | Some u \<Rightarrow> u) < \<lfloor>mtimeMs (stat f)\<rfloor>
                        \<or> (thumbError r \<noteq> Some 1
                            \<and> (\<not> fileExists (disk st) (thumbAbsOf e f)
                                \<or> duration r = None \<or> duration r = Some 0))))))
         \<and> (\<forall>r. db st (rel f) = Some r \<and> thumbError r = Some 1 \<longrightarrow>
                (f \<in> set (tasks e False found st) \<longleftrightarrow>
                   (case updatedAt r of None \<Rightarrow> 0 | Some u \<Rightarrow> u) < \<lfloor>mtimeMs (stat f)\<rfloor>))"
proof (cases "db st (rel f)")
  case None
  with assms show ?thesis by (simp add: tasks_def needsUpdate_def)
next
  case (Some r)
  with assms show ?thesis by (auto simp: tasks_def needsUpdate_def Let_def)
qed

lemma thumbAbsOf_a: "thumbAbsOf env_ok file_a = thumb_a"
  by code_simp

theorem needsUpdate_decision_witness:
  "file_a \<in> set [file_a]
   \<and> file_a \<in> set (tasks env_ok False [file_a] empty_state)
   \<and> file_a \<notin> set (tasks env_ok False [file_a]
        \<lparr>db = [''a.mp4'' \<mapsto> \<lparr>folder = [], name = ''a'', duration = None, createdAt = None,
                                thumb = None, updatedAt = Some 1000, thumbError = Some 1\<rparr>],
         disk = Map.empty\<rparr>)"
proof -
  have m: "file_a \<in> set [file_a]" by simp
  have r: "rel file_a = ''a.mp4''" "\<lfloor>mtimeMs (stat file_a)\<rfloor> = 1000"
    by (simp_all add: file_a_def)
  show ?thesis
    using needsUpdate_decision [OF m, of env_ok False empty_state]
      needsUpdate_decision [OF m, of env_ok False
        "\<lparr>db = [''a.mp4'' \<mapsto> \<lparr>folder = [], name = ''a'', duration = None, createdAt = None,
                                thumb = None, updatedAt = Some 1000, thumbError = Some 1\<rparr>],
         disk = Map.empty\<rparr>"]
    by (simp add: r empty_state_def)
qed

text \<open>
  The claim as stated fails on a stored duration of zero: the row has no failure flag,
  its thumbnail file is there, its duration is not null and the modification time is the
  stored \<^verbatim>\<open>updatedAt\<close>, and the file is on the work list.
\<close>

theorem needsUpdate_zero_duration:
  "tasks env_ok False [file_a]
     \<lparr>db = [''a.mp4'' \<mapsto> \<lparr>folder = [], name = ''a'', duration = Some 0, createdAt = Some 900,
                             thumb = Some ''thumbs/da39a3ee5e6b4b0d.jpg'',
                             updatedAt = Some 1000, thumbError = Some 0\<rparr>],
      disk = [thumb_a \<mapsto> frame_a]\<rparr> = [file_a]
   \<and> \<not> needsIndexing_spec
         (Some \<lparr>folder = [], name = ''a'', duration = Some 0, createdAt = Some 900,
                thumb = Some ''thumbs/da39a3ee5e6b4b0d.jpg'',
                updatedAt = Some 1000, thumbError = Some 0\<rparr>)
         (fileExists [thumb_a \<mapsto> frame_a] (thumbAbsOf env_ok file_a))
         (mtimeMs (stat file_a))"
proof -
  have r: "rel file_a = ''a.mp4''" "mtimeMs (stat file_a) = 1000"
    by (simp_all add: file_a_def)
  show ?thesis
    by (simp add: tasks_def needsUpdate_def needsIndexing_spec_def fileExists_def thumbAbsOf_a r)
qed

section \<open>Rows that carry the failure flag\<close>

lemma apply_write_thumb:
  assumes "\<forall>p r. t p = Some r \<longrightarrow> thumbError r = Some 1 \<longrightarrow> thumb r = None"
  shows "\<forall>p r. apply_write t w p = Some r \<longrightarrow> thumbError r = Some 1 \<longrightarrow> thumb r = None"
proof (cases w)
  case (Success q fld nm dur created thumbRel upd)
  with assms show ?thesis by (auto simp: upsertSuccess_def)
next
  case (Failure q fld nm upd)
  with assms show ?thesis by (auto simp: upsertFailure_def split: option.splits)
next
  case (Delete q)
  with assms show ?thesis by (auto simp: deleteByPath_def)
qed

lemma foldl_apply_write_thumb:
  "\<forall>p r. t p = Some r \<longrightarrow> thumbError r = Some 1 \<longrightarrow> thumb r = None \<Longrightarrow>
   \<forall>p r. foldl apply_write t ws p = Some r \<longrightarrow> thumbError r = Some 1 \<longrightarrow> thumb r = None"
proof (induction ws arbitrary: t)
  case Nil
  then show ?case by simp
next
  case (Cons w ws)
  from Cons.prems have "\<forall>p r. apply_write t w p = Some r \<longrightarrow> thumbError r = Some 1 \<longrightarrow> thumb r = None"
    by (rule apply_write_thumb)
  then show ?case using Cons.IH by simp
qed

text \<open>
  Claim C2, as amended. In every table reached from the empty one by the two upserts
  and by deletions, a row whose \<^verbatim>\<open>thumbError\<close> is 1 has a null \<^verbatim>\<open>thumb\<close>. The
  failure upsert stores null \<^verbatim>\<open>duration\<close> and \<^verbatim>\<open>createdAt\<close> when it creates the row;
  when it overwrites a row it changes \<^verbatim>\<open>updatedAt\<close>, \<^verbatim>\<open>thumbError\<close> and
  \<^verbatim>\<open>thumb\<close> only, so \<^verbatim>\<open>duration\<close> and \<^verbatim>\<open>createdAt\<close> keep what the row held.
\<close>

theorem failure_flag_invariant:
  "(run ws p = Some r \<and> thumbError r = Some 1 \<longrightarrow> thumb r = None)
   \<and> (t q = None \<longrightarrow>
        upsertFailure q fld nm upd t q =
          Some \<lparr>folder = fld, name = nm, duration = None, createdAt = None, thumb = None,
                updatedAt = Some upd, thumbError = Some 1\<rparr>)
   \<and> (t q = Some r0 \<longrightarrow>
        upsertFailure q fld nm upd t q =
          Some (r0\<lparr>updatedAt := Some upd, thumbError := Some 1, thumb := None\<rparr>))"
proof -
  have "run ws p = Some r \<Longrightarrow> thumbError r = Some 1 \<Longrightarrow> thumb r = None"
    unfolding run_def using foldl_apply_write_thumb [of Map.empty ws] by simp
  then show ?thesis by (auto simp: upsertFailure_def)
qed

theorem failure_flag_invariant_witness:
  "run [Failure ''a.mp4'' [] ''a'' 1000, Success ''b.mp4'' [] ''b'' (Some 10) 900 ''thumbs/b.jpg'' 1000]
       ''a.mp4''
     = Some \<lparr>folder = [], name = ''a'', duration = None, createdAt = None, thumb = None,
             updatedAt = Some 1000, thumbError = Some 1\<rparr>
   \<and> upsertFailure ''b.mp4'' [] ''b'' 2000
        (run [Failure ''a.mp4'' [] ''a'' 1000,
              Success ''b.mp4'' [] ''b'' (Some 10) 900 ''thumbs/b.jpg'' 1000]) ''b.mp4''
     = Some \<lparr>folder = [], name = ''b'', duration = Some 10, createdAt = Some 900, thumb = None,
             updatedAt = Some 2000, thumbError = Some 1\<rparr>
   \<and> upsertFailure ''c.mp4'' [] ''c'' 2000
        (run [Failure ''a.mp4'' [] ''a'' 1000,
              Success ''b.mp4'' [] ''b'' (Some 10) 900 ''thumbs/b.jpg'' 1000]) ''c.mp4''
     = Some \<lparr>folder = [], name = ''c'', duration = None, createdAt = None, thumb = None,
             updatedAt = Some 2000, thumbError = Some 1\<rparr>"
proof -
  define ws where "ws = [Failure ''a.mp4'' [] ''a'' 1000,
    Success ''b.mp4'' [] ''b'' (Some 10) 900 ''thumbs/b.jpg'' 1000]"
  have a: "run ws ''a.mp4'' = Some \<lparr>folder = [], name = ''a'', duration = None,
      createdAt = None, thumb = None, updatedAt = Some 1000, thumbError = Some 1\<rparr>"
    by (simp add: ws_def run_def upsertFailure_def upsertSuccess_def)
  have b: "run ws ''b.mp4'' = Some \<lparr>folder = [], name = ''b'', duration = Some 10,
      createdAt = Some 900, thumb = Some ''thumbs/b.jpg'', updatedAt = Some 1000,
      thumbError = Some 0\<rparr>"
    by (simp add: ws_def run_def upsertFailure_def upsertSuccess_def)
  have c: "run ws ''c.mp4'' = None"
    by (simp add: ws_def run_def upsertFailure_def upsertSuccess_def)
  show ?thesis
    using failure_flag_invariant [of ws "''a.mp4''" _ "run ws" "''b.mp4''" "[]" "''b''" 2000
        "\<lparr>folder = [], name = ''b'', duration = Some 10,
      createdAt = Some 900, thumb = Some ''thumbs/b.jpg'', updatedAt = Some 1000,
      thumbError = Some 0\<rparr>"]
      failure_flag_invariant [of ws "''a.mp4''" _ "run ws" "''c.mp4''" "[]" "''c''" 2000]
    unfolding ws_def [symmetric] by (simp add: a b c)
qed

text \<open>
  The claim as stated fails when a failed re-index overwrites a successful row: the
  row then has \<^verbatim>\<open>thumbError\<close> 1 and still its old duration and creation time.
\<close>

theorem failure_keeps_duration:
  "run [Success ''a.mp4'' [] ''a'' (Some 10) 900 ''thumbs/da39a3ee5e6b4b0d.jpg'' 1000,
        Failure ''a.mp4'' [] ''a'' 2000] ''a.mp4''
     = Some \<lparr>folder = [], name = ''a'', duration = Some 10, createdAt = Some 900, thumb = None,
             updatedAt = Some 2000, thumbError = Some 1\<rparr>"
  by (simp add: run_def upsertFailure_def upsertSuccess_def)

section \<open>Smart mode: partial failure\<close>

text \<open>
  Claim C3, as amended. In smart mode (the flag set, a known positive duration, the
  output directory created), thumbnail generation succeeds exactly when all five
  candidate extractions succeed and the rename of the chosen candidate succeeds; the
  failure of any one extraction fails the operation.
\<close>

theorem makeThumbnail_smart_needs_all:
  assumes "SMART_THUMB e" and "0 < d" and "mkdir_ok e (dirname out)"
  shows "(fst (makeThumbnail e inp out (Some d) fsys) = None \<longleftrightarrow>
            (\<forall>pk \<in> set (zip picks [0..<5]). candidate e inp out d pk \<noteq> None)
            \<and> rename_ok e (fst (best_of (map the (map (candidate e inp out d) (zip picks [0..<5]))))) out)
         \<and> ((\<exists>pk \<in> set (zip picks [0..<5]). candidate e inp out d pk = None) \<longrightarrow>
              fst (makeThumbnail e inp out (Some d) fsys) = Some ExtractFailed)"
proof -
  define results where "results = map (candidate e inp out d) (zip picks [0..<5])"
  have n: "None \<in> set results \<longleftrightarrow>
             (\<exists>pk \<in> set (zip picks [0..<5]). candidate e inp out d pk = None)"
    unfolding results_def by force
  have m: "fst (makeThumbnail e inp out (Some d) fsys) =
             (if None \<in> set results then Some ExtractFailed
              else if \<not> rename_ok e (fst (best_of (map the results))) out then Some RenameFailed
              else None)"
    using assms by (simp add: makeThumbnail_def Let_def results_def)
  show ?thesis
  proof (cases "\<exists>pk \<in> set (zip picks [0..<5]). candidate e inp out d pk = None")
    case True
    then show ?thesis unfolding m n results_def [symmetric] by (simp del: not_None_eq)
  next
    case False
    then show ?thesis unfolding m n results_def [symmetric] by (simp del: not_None_eq)
  qed
qed

lemma zip_picks:
  "zip picks [0..<5] =
     [(to_double (1 / 10), 0), (to_double (3 / 10), 1), (to_double (1 / 2), 2),
      (to_double (7 / 10), 3), (to_double (9 / 10), 4)]"
  by (simp add: picks_def upt_rec)

lemma tmpPath_simps:
  "tmpPath out 0 = out @ ''.tmp-0.jpg''"
  "tmpPath out (Suc 0) = out @ ''.tmp-1.jpg''"
  "tmpPath out 2 = out @ ''.tmp-2.jpg''"
  "tmpPath out 3 = out @ ''.tmp-3.jpg''"
  "tmpPath out 4 = out @ ''.tmp-4.jpg''"
  by (simp_all add: tmpPath_def dec.simps digit_char_def)

theorem makeThumbnail_smart_needs_all_witness:
  "SMART_THUMB (env_ok\<lparr>SMART_THUMB := True\<rparr>) \<and> (0::real) < 100
   \<and> mkdir_ok (env_ok\<lparr>SMART_THUMB := True\<rparr>) (dirname thumb_a)
   \<and> fst (makeThumbnail (env_ok\<lparr>SMART_THUMB := True\<rparr>) ''/v/a.mp4'' thumb_a (Some 100) Map.empty) = None
   \<and> fst (makeThumbnail (env_ok\<lparr>SMART_THUMB := True, ffmpeg := (\<lambda>ss i out. None)\<rparr>)
            ''/v/a.mp4'' thumb_a (Some 100) Map.empty) = Some ExtractFailed"
proof -
  define e1 where "e1 = env_ok\<lparr>SMART_THUMB := True\<rparr>"
  define e2 where "e2 = env_ok\<lparr>SMART_THUMB := True, ffmpeg := (\<lambda>ss i out. None)\<rparr>"
  have h1: "SMART_THUMB e1" "(0::real) < 100" "mkdir_ok e1 (dirname thumb_a)"
    by (simp_all add: e1_def env_ok_def)
  have h2: "SMART_THUMB e2" "mkdir_ok e2 (dirname thumb_a)"
    by (simp_all add: e2_def env_ok_def)
  have c1: "\<And>pk. candidate e1 ''/v/a.mp4'' thumb_a 100 pk \<noteq> None"
    by (simp add: candidate_def e1_def env_ok_def split: prod.splits)
  have c2: "\<And>pk. candidate e2 ''/v/a.mp4'' thumb_a 100 pk = None"
    by (simp add: candidate_def e2_def env_ok_def split: prod.splits)
  have r1: "\<And>a b. rename_ok e1 a b" by (simp add: e1_def env_ok_def)
  have 1: "fst (makeThumbnail e1 ''/v/a.mp4'' thumb_a (Some 100) Map.empty) = None"
    using makeThumbnail_smart_needs_all [OF h1, of "''/v/a.mp4''" Map.empty] c1 r1 by simp
  have 2: "fst (makeThumbnail e2 ''/v/a.mp4'' thumb_a (Some 100) Map.empty) = Some ExtractFailed"
  proof -
    have "(to_double (1 / 10), 0) \<in> set (zip picks [0..<5])" by (simp add: zip_picks)
    then have "\<exists>pk \<in> set (zip picks [0..<5]). candidate e2 ''/v/a.mp4'' thumb_a 100 pk = None"
      using c2 by blast
    then show ?thesis
      using makeThumbnail_smart_needs_all [OF h2(1) h1(2) h2(2), of "''/v/a.mp4''" Map.empty]
      by blast
  qed
  show ?thesis using h1 1 2 unfolding e1_def e2_def by simp
qed

text \<open>
  The claim as stated fails: candidate 0 fails, candidate 1 (like 2, 3 and 4) succeeds,
  and thumbnail generation fails.
\<close>

theorem one_candidate_failure_fails:
  "candidate (env_ok\<lparr>SMART_THUMB := True,
                     ffmpeg := (\<lambda>ss i out. if out = thumb_a @ ''.tmp-0.jpg'' then None else Some 7)\<rparr>)
     ''/v/a.mp4'' thumb_a 100 (picks ! 1, 1) = Some (thumb_a @ ''.tmp-1.jpg'', 7)
   \<and> fst (makeThumbnail
            (env_ok\<lparr>SMART_THUMB := True,
                    ffmpeg := (\<lambda>ss i out. if out = thumb_a @ ''.tmp-0.jpg'' then None else Some 7)\<rparr>)
            ''/v/a.mp4'' thumb_a (Some 100) Map.empty) = Some ExtractFailed"
  by (simp add: makeThumbnail_def candidate_def zip_picks tmpPath_simps env_ok_def Let_def)

section \<open>A failed probe\<close>

lemma probeDuration_failed: "probe_failed e p \<Longrightarrow> probeDuration e p = None"
  by (auto simp: probe_failed_def probeDuration_def split: option.splits number.splits)

lemma makeThumbnail_fixed:
  "fst (makeThumbnail e inp out None fsys) = None \<longleftrightarrow>
     mkdir_ok e (dirname out) \<and> ffmpeg e ''00:00:01'' inp out \<noteq> None"
  by (auto simp: makeThumbnail_def split: option.splits)

lemma indexSingle_other: "p \<noteq> rel f \<Longrightarrow> db (indexSingle e f upd thumbRel st) p = db st p"
  by (simp add: indexSingle_def Let_def upsertSuccess_def upsertFailure_def
      split: prod.splits option.splits)

lemma indexSingle_row:
  "\<exists>r. db (indexSingle e f upd thumbRel st) (rel f) = Some r \<and> updatedAt r = Some upd"
  by (auto simp: indexSingle_def Let_def upsertSuccess_def upsertFailure_def
      split: prod.splits option.splits)

lemma foldl_indexSingle_other:
  "p \<notin> rel ` set work \<Longrightarrow>
   db (foldl (\<lambda>s f. indexSingle e f \<lfloor>mtimeMs (stat f)\<rfloor> (getThumbRelPath e (rel f)) s) st work) p
     = db st p"
  by (induction work arbitrary: st) (simp_all add: indexSingle_other)

lemma foldl_indexSingle_row:
  assumes "distinct (map rel work)" and "f \<in> set work"
  shows "\<exists>r. db (foldl (\<lambda>s f. indexSingle e f \<lfloor>mtimeMs (stat f)\<rfloor> (getThumbRelPath e (rel f)) s)
                    st work) (rel f) = Some r
             \<and> updatedAt r = Some \<lfloor>mtimeMs (stat f)\<rfloor>"
  using assms
proof (induction work arbitrary: st)
  case Nil
  then show ?case by simp
next
  case (Cons x xs)
  show ?case
  proof (cases "f = x")
    case True
    then have "rel f \<notin> rel ` set xs" using Cons.prems(1) by auto
    then show ?thesis
      using True indexSingle_row [of e x "\<lfloor>mtimeMs (stat x)\<rfloor>" "getThumbRelPath e (rel x)" st]
      by (simp add: foldl_indexSingle_other)
  next
    case False
    then have "f \<in> set xs" using Cons.prems(2) by simp
    moreover have "distinct (map rel xs)" using Cons.prems(1) by simp
    ultimately show ?thesis using Cons.IH by simp
  qed
qed

lemma tasks_subset: "set (tasks e rebuild found st) \<subseteq> set found"
  by (auto simp: tasks_def)

lemma tasks_distinct: "distinct (map rel found) \<Longrightarrow> distinct (map rel (tasks e rebuild found st))"
  by (simp add: tasks_def distinct_map_filter)

lemma foldl_indexSingle_prop:
  assumes "distinct (map rel work)" and "f \<in> set work"
    and "\<And>s. \<exists>r. db (indexSingle e f \<lfloor>mtimeMs (stat f)\<rfloor> (getThumbRelPath e (rel f)) s) (rel f)
                  = Some r \<and> Q r"
  shows "\<exists>r. db (foldl (\<lambda>s f. indexSingle e f \<lfloor>mtimeMs (stat f)\<rfloor> (getThumbRelPath e (rel f)) s)
                    st work) (rel f) = Some r \<and> Q r"
  using assms(1,2)
proof (induction work arbitrary: st)
  case Nil
  then show ?case by simp
next
  case (Cons x xs)
  show ?case
  proof (cases "f = x")
    case True
    then have "rel f \<notin> rel ` set xs" using Cons.prems(1) by auto
    then show ?thesis
      using True assms(3) [of st] by (simp add: foldl_indexSingle_other)
  next
    case False
    then have "f \<in> set xs" using Cons.prems(2) by simp
    moreover have "distinct (map rel xs)" using Cons.prems(1) by simp
    ultimately show ?thesis using Cons.IH by simp
  qed
qed

lemma buildIndex_unfold:
  assumes "mkdir_ok e (thumbsImageDir e)" and "mkdir_ok e (thumbsDir e)"
  shows "buildIndex e rebuild found st =
           (None,
            foldl (\<lambda>s f. indexSingle e f \<lfloor>mtimeMs (stat f)\<rfloor> (getThumbRelPath e (rel f)) s)
              (st\<lparr>db := (\<lambda>p. if p \<in> set (map rel found) then db st p else None)\<rparr>)
              (tasks e rebuild found st))"
  using assms by (simp add: buildIndex_def Let_def)

lemma buildIndex_rows:
  assumes d: "distinct (map rel found)"
    and mk: "mkdir_ok e (thumbsImageDir e)" "mkdir_ok e (thumbsDir e)"
    and g: "g \<in> set found"
  shows "\<exists>r. db (snd (buildIndex e rebuild found st)) (rel g) = Some r"
proof (cases "g \<in> set (tasks e rebuild found st)")
  case True
  then show ?thesis
    unfolding buildIndex_unfold [OF mk] snd_conv
    using foldl_indexSingle_row [OF tasks_distinct [OF d] True] by fastforce
next
  case False
  have "rel g \<notin> rel ` set (tasks e rebuild found st)"
  proof
    assume "rel g \<in> rel ` set (tasks e rebuild found st)"
    then obtain h where h: "h \<in> set (tasks e rebuild found st)" "rel h = rel g" by auto
    then have "h \<in> set found" using tasks_subset by blast
    then have "h = g" using d g h(2) by (meson distinct_map inj_onD)
    then show False using h(1) False by simp
  qed
  then have "db (snd (buildIndex e rebuild found st)) (rel g) = db st (rel g)"
    unfolding buildIndex_unfold [OF mk] snd_conv using g by (simp add: foldl_indexSingle_other)
  moreover have "\<not> needsUpdate rebuild (db st (rel g))
                    (fileExists (disk st) (thumbAbsOf e g)) \<lfloor>mtimeMs (stat g)\<rfloor>"
    using False g by (simp add: tasks_def)
  ultimately show ?thesis
    by (auto simp: needsUpdate_def split: option.splits)
qed

text \<open>
  Claim C4, as amended. \<open>probeDuration\<close> turns a failed or non-finite probe into a null
  duration and \<open>indexSingle\<close> goes on in fixed mode. When the thumbnail is made, the file
  is recorded by the success statement, with a null duration and \<^verbatim>\<open>thumbError\<close> 0. When
  the thumbnail fails too, the file is recorded by the failure statement, with
  \<^verbatim>\<open>thumbError\<close> 1, a null \<^verbatim>\<open>thumb\<close>, and the duration of the row it overwrites (null
  for a new row). No other row changes. A pass that has such a file on its work list is
  not aborted: \<open>buildIndex\<close> ends without an error, every file found has a row at the end,
  and the row of the file with the failed probe is one of the two above.
\<close>

theorem probe_failure_outcome:
  assumes "probe_failed e (abs_v f)"
  shows "(mkdir_ok e (dirname (path_join (thumbsDir e) thumbRel))
            \<and> ffmpeg e ''00:00:01'' (abs_v f) (path_join (thumbsDir e) thumbRel) \<noteq> None \<longrightarrow>
          (\<exists>fld nm created.
             db (indexSingle e f upd thumbRel st) (rel f) =
               Some \<lparr>folder = fld, name = nm, duration = None, createdAt = Some created,
                     thumb = Some thumbRel, updatedAt = Some upd, thumbError = Some 0\<rparr>))
       \<and> (\<not> (mkdir_ok e (dirname (path_join (thumbsDir e) thumbRel))
               \<and> ffmpeg e ''00:00:01'' (abs_v f) (path_join (thumbsDir e) thumbRel) \<noteq> None) \<longrightarrow>
          (\<exists>r. db (indexSingle e f upd thumbRel st) (rel f) = Some r
               \<and> thumbError r = Some 1 \<and> thumb r = None \<and> updatedAt r = Some upd
               \<and> duration r = (case db st (rel f) of None \<Rightarrow> None | Some r0 \<Rightarrow> duration r0)))
       \<and> (\<forall>p. p \<noteq> rel f \<longrightarrow> db (indexSingle e f upd thumbRel st) p = db st p)
       \<and> (distinct (map rel found) \<and> mkdir_ok e (thumbsImageDir e) \<and> mkdir_ok e (thumbsDir e)
            \<and> f \<in> set (tasks e rebuild found st) \<longrightarrow>
          fst (buildIndex e rebuild found st) = None
          \<and> (\<forall>g \<in> set found. \<exists>r. db (snd (buildIndex e rebuild found st)) (rel g) = Some r)
          \<and> (\<exists>r. db (snd (buildIndex e rebuild found st)) (rel f) = Some r
                \<and> updatedAt r = Some \<lfloor>mtimeMs (stat f)\<rfloor>
                \<and> (thumbError r = Some 0 \<and> duration r = None
                    \<or> thumbError r = Some 1 \<and> thumb r = None)))"
proof -
  have single: "(mkdir_ok e (dirname (path_join (thumbsDir e) t))
            \<and> ffmpeg e ''00:00:01'' (abs_v f) (path_join (thumbsDir e) t) \<noteq> None \<longrightarrow>
          (\<exists>fld nm created.
             db (indexSingle e f u t s) (rel f) =
               Some \<lparr>folder = fld, name = nm, duration = None, createdAt = Some created,
                     thumb = Some t, updatedAt = Some u, thumbError = Some 0\<rparr>))
       \<and> (\<not> (mkdir_ok e (dirname (path_join (thumbsDir e) t))
               \<and> ffmpeg e ''00:00:01'' (abs_v f) (path_join (thumbsDir e) t) \<noteq> None) \<longrightarrow>
          (\<exists>r. db (indexSingle e f u t s) (rel f) = Some r
               \<and> thumbError r = Some 1 \<and> thumb r = None \<and> updatedAt r = Some u
               \<and> duration r = (case db s (rel f) of None \<Rightarrow> None | Some r0 \<Rightarrow> duration r0)))"
    for u t s
  proof -
    define out where "out = path_join (thumbsDir e) t"
    have d: "probeDuration e (abs_v f) = None"
      using assms by (rule probeDuration_failed)
    obtain res fs' where m: "makeThumbnail e (abs_v f) out None (disk s) = (res, fs')"
      by (cases "makeThumbnail e (abs_v f) out None (disk s)")
    have ok: "res = None \<longleftrightarrow> mkdir_ok e (dirname out) \<and> ffmpeg e ''00:00:01'' (abs_v f) out \<noteq> None"
      using makeThumbnail_fixed [of e "abs_v f" out "disk s"] m by simp
    show ?thesis
    proof (cases res)
      case None
      then show ?thesis
        using ok m d by (simp add: indexSingle_def Let_def out_def [symmetric] upsertSuccess_def)
    next
      case (Some err)
      then show ?thesis
        using ok m d
        by (auto simp: indexSingle_def Let_def out_def [symmetric] upsertFailure_def
            split: option.splits)
    qed
  qed
  have other: "\<forall>p. p \<noteq> rel f \<longrightarrow> db (indexSingle e f upd thumbRel st) p = db st p"
    by (simp add: indexSingle_other)
  have row: "\<exists>r. db (indexSingle e f \<lfloor>mtimeMs (stat f)\<rfloor> (getThumbRelPath e (rel f)) s) (rel f)
                  = Some r
               \<and> (updatedAt r = Some \<lfloor>mtimeMs (stat f)\<rfloor>
                  \<and> (thumbError r = Some 0 \<and> duration r = None
                      \<or> thumbError r = Some 1 \<and> thumb r = None))" for s
    using single [of "getThumbRelPath e (rel f)" "\<lfloor>mtimeMs (stat f)\<rfloor>" s]
    by (cases "mkdir_ok e (dirname (path_join (thumbsDir e) (getThumbRelPath e (rel f))))
            \<and> ffmpeg e ''00:00:01'' (abs_v f) (path_join (thumbsDir e) (getThumbRelPath e (rel f)))
                \<noteq> None") auto
  have pass: "fst (buildIndex e rebuild found st) = None
          \<and> (\<forall>g \<in> set found. \<exists>r. db (snd (buildIndex e rebuild found st)) (rel g) = Some r)
          \<and> (\<exists>r. db (snd (buildIndex e rebuild found st)) (rel f) = Some r
                \<and> updatedAt r = Some \<lfloor>mtimeMs (stat f)\<rfloor>
                \<and> (thumbError r = Some 0 \<and> duration r = None
                    \<or> thumbError r = Some 1 \<and> thumb r = None))"
    if d: "distinct (map rel found)"
      and mk: "mkdir_ok e (thumbsImageDir e)" "mkdir_ok e (thumbsDir e)"
      and t: "f \<in> set (tasks e rebuild found st)"
  proof -
    have 1: "fst (buildIndex e rebuild found st) = None"
      by (simp add: buildIndex_unfold [OF mk])
    have 2: "\<forall>g \<in> set found. \<exists>r. db (snd (buildIndex e rebuild found st)) (rel g) = Some r"
      using buildIndex_rows [OF d mk] by blast
    have 3: "\<exists>r. db (snd (buildIndex e rebuild found st)) (rel f) = Some r
                \<and> (updatedAt r = Some \<lfloor>mtimeMs (stat f)\<rfloor>
                   \<and> (thumbError r = Some 0 \<and> duration r = None
                       \<or> thumbError r = Some 1 \<and> thumb r = None))"
      unfolding buildIndex_unfold [OF mk] snd_conv
      by (rule foldl_indexSingle_prop [OF tasks_distinct [OF d] t]) (rule row)
    show ?thesis using 1 2 3 by blast
  qed
  show ?thesis
    using single [of thumbRel upd st] other pass by blast
qed

lemma file_a_simps:
  "abs_v file_a = ''/v/a.mp4''" "rel file_a = ''a.mp4''"
  "mtimeMs (stat file_a) = 1000" "birthtimeMs (stat file_a) = 0" "ctimeMs (stat file_a) = 900"
  by (simp_all add: file_a_def)

lemma names_a:
  "basename ''/v/a.mp4'' (extname ''/v/a.mp4'') = ''a''"
  "basename ''a.mp4'' (extname ''a.mp4'') = ''a''"
  "dirname ''a.mp4'' = ''.''"
  by code_simp+

lemma thumb_paths_a:
  "path_join ''thumbs'' ''da39a3ee5e6b4b0d.jpg'' = ''thumbs/da39a3ee5e6b4b0d.jpg''"
  "path_join (path_join ''/v'' ''.thumbs.db'') ''thumbs/da39a3ee5e6b4b0d.jpg'' = thumb_a"
  by code_simp+

theorem probe_failure_outcome_witness:
  "probe_failed (env_ok\<lparr>ffprobe := (\<lambda>p. Some NaN), ffmpeg := (\<lambda>ss i out. None)\<rparr>) (abs_v file_a)
   \<and> (\<exists>r. db (indexSingle (env_ok\<lparr>ffprobe := (\<lambda>p. Some NaN), ffmpeg := (\<lambda>ss i out. None)\<rparr>)
                 file_a 1000 ''thumbs/da39a3ee5e6b4b0d.jpg'' empty_state) (rel file_a) = Some r
          \<and> thumbError r = Some 1 \<and> thumb r = None \<and> updatedAt r = Some 1000
          \<and> duration r = None)
   \<and> distinct (map rel [file_a])
   \<and> file_a \<in> set (tasks (env_ok\<lparr>ffprobe := (\<lambda>p. Some NaN), ffmpeg := (\<lambda>ss i out. None)\<rparr>)
                      False [file_a] empty_state)
   \<and> fst (buildIndex (env_ok\<lparr>ffprobe := (\<lambda>p. Some NaN), ffmpeg := (\<lambda>ss i out. None)\<rparr>)
            False [file_a] empty_state) = None
   \<and> (\<exists>r. db (snd (buildIndex (env_ok\<lparr>ffprobe := (\<lambda>p. Some NaN), ffmpeg := (\<lambda>ss i out. None)\<rparr>)
                      False [file_a] empty_state)) (rel file_a) = Some r
          \<and> updatedAt r = Some 1000)"
proof -
  define e where "e = env_ok\<lparr>ffprobe := (\<lambda>p. Some NaN), ffmpeg := (\<lambda>ss i out. None)\<rparr>"
  have h: "probe_failed e (abs_v file_a)"
    by (simp add: e_def probe_failed_def env_ok_def)
  have f: "\<And>out. ffmpeg e ''00:00:01'' (abs_v file_a) out = None"
    by (simp add: e_def env_ok_def)
  have n: "db empty_state (rel file_a) = None" by (simp add: empty_state_def)
  have p: "distinct (map rel [file_a])" "mkdir_ok e (thumbsImageDir e)" "mkdir_ok e (thumbsDir e)"
    "file_a \<in> set (tasks e False [file_a] empty_state)"
    by (simp_all add: e_def env_ok_def tasks_def needsUpdate_def empty_state_def)
  note t = probe_failure_outcome [OF h, of "''thumbs/da39a3ee5e6b4b0d.jpg''" 1000 empty_state
      "[file_a]" False]
  have 1: "\<exists>r. db (indexSingle e file_a 1000 ''thumbs/da39a3ee5e6b4b0d.jpg'' empty_state)
                  (rel file_a) = Some r
          \<and> thumbError r = Some 1 \<and> thumb r = None \<and> updatedAt r = Some 1000
          \<and> duration r = None"
    using t n by (simp add: f)
  have 2: "fst (buildIndex e False [file_a] empty_state) = None"
    using t p by blast
  have 3: "\<exists>r. db (snd (buildIndex e False [file_a] empty_state)) (rel file_a) = Some r
          \<and> updatedAt r = Some 1000"
    using t p by (auto simp: file_a_simps)
  show ?thesis
    using h p(1,4) 1 2 3 unfolding e_def [symmetric] by blast
qed

text \<open>
  The claim as stated fails: the probe fails, the thumbnail is made, and the row is
  written with \<^verbatim>\<open>thumbError\<close> 0.
\<close>

theorem probe_failure_stored_as_success:
  "probe_failed (env_ok\<lparr>ffprobe := (\<lambda>p. None)\<rparr>) (abs_v file_a)
   \<and> db (indexSingle (env_ok\<lparr>ffprobe := (\<lambda>p. None)\<rparr>) file_a 1000
            (getThumbRelPath (env_ok\<lparr>ffprobe := (\<lambda>p. None)\<rparr>) (rel file_a)) empty_state) ''a.mp4''
     = Some \<lparr>folder = [], name = ''a'', duration = None, createdAt = Some 900,
             thumb = Some ''thumbs/da39a3ee5e6b4b0d.jpg'', updatedAt = Some 1000,
             thumbError = Some 0\<rparr>"
  by (simp add: probe_failed_def indexSingle_def makeThumbnail_def probeDuration_def
      upsertSuccess_def getThumbRelPath_def thumbsDir_def env_ok_def file_a_simps names_a
      thumb_paths_a empty_state_def)

section \<open>Smart mode: sampling and selection\<close>

subsection \<open>Decimal numerals\<close>

lemma digit_val_digit_char_all: "\<forall>d \<in> set [0..<10]. digit_val (digit_char d) = d \<and> is_digit (digit_char d)"
  by code_simp

lemma digit_val_digit_char: "d < 10 \<Longrightarrow> digit_val (digit_char d) = d"
  using digit_val_digit_char_all by simp

lemma is_digit_digit_char: "d < 10 \<Longrightarrow> is_digit (digit_char d)"
  using digit_val_digit_char_all by simp

lemma digits_val_snoc: "digits_val (ds @ [c]) = 10 * digits_val ds + digit_val c"
  by (simp add: digits_val_def)

lemma digits_val_dec: "digits_val (dec n) = n"
proof (induction n rule: dec.induct)
  case (1 n)
  show ?case
  proof (cases "n < 10")
    case True
    then show ?thesis
      by (subst dec.simps) (simp add: digits_val_def digit_val_digit_char)
  next
    case False
    then have "digits_val (dec n) = 10 * digits_val (dec (n div 10)) + digit_val (digit_char (n mod 10))"
      by (subst dec.simps) (simp add: digits_val_snoc)
    also have "\<dots> = 10 * (n div 10) + n mod 10"
      using 1 False by (simp add: digit_val_digit_char)
    finally show ?thesis by simp
  qed
qed

lemma dec_digits: "\<forall>c \<in> set (dec n). is_digit c"
proof (induction n rule: dec.induct)
  case (1 n)
  show ?case
  proof (cases "n < 10")
    case True
    then show ?thesis by (subst dec.simps) (simp add: is_digit_digit_char)
  next
    case False
    then show ?thesis using 1 by (subst dec.simps) (simp add: is_digit_digit_char)
  qed
qed

lemma dec_nonempty: "dec n \<noteq> []"
  by (subst dec.simps) simp

lemma dec_inj: "dec m = dec n \<Longrightarrow> m = n"
  by (metis digits_val_dec)

lemma tmpPath_inj: "tmpPath out j = tmpPath out k \<longleftrightarrow> j = k"
  by (auto simp: tmpPath_def dest: dec_inj)

lemma tmpPath_not_out: "tmpPath out k \<noteq> out"
  by (simp add: tmpPath_def)

subsection \<open>The reduction that picks the largest candidate\<close>

lemma foldl_best:
  fixes g :: "nat \<Rightarrow> string \<times> nat"
  shows "\<exists>b \<le> n.
     foldl (\<lambda>prev cur. if snd cur > snd prev then cur else prev) (g 0) (map g [1..<Suc n]) = g b
     \<and> (\<forall>k \<le> n. snd (g k) \<le> snd (g b)) \<and> (\<forall>k < b. snd (g k) < snd (g b))"
proof (induction n)
  case 0
  then show ?case by simp
next
  case (Suc n)
  then obtain b where b: "b \<le> n"
    "foldl (\<lambda>prev cur. if snd cur > snd prev then cur else prev) (g 0) (map g [1..<Suc n]) = g b"
    "\<forall>k \<le> n. snd (g k) \<le> snd (g b)" "\<forall>k < b. snd (g k) < snd (g b)"
    by blast
  show ?case
  proof (cases "snd (g (Suc n)) > snd (g b)")
    case True
    have "\<forall>k \<le> Suc n. snd (g k) \<le> snd (g (Suc n))"
      using b(3) True by (metis le_Suc_eq le_trans less_imp_le_nat order_refl)
    moreover have "\<forall>k < Suc n. snd (g k) < snd (g (Suc n))"
      using b(3) True by (metis less_Suc_eq_le le_less_trans)
    ultimately show ?thesis using b(2) True by (intro exI [of _ "Suc n"]) simp
  next
    case False
    have "\<forall>k \<le> Suc n. snd (g k) \<le> snd (g b)"
      using b(3) False by (metis le_Suc_eq not_less)
    then show ?thesis using b False by (intro exI [of _ b]) simp
  qed
qed

lemma best_of_first_max:
  fixes g :: "nat \<Rightarrow> string \<times> nat"
  shows "\<exists>b < Suc n. best_of (map g [0..<Suc n]) = g b
           \<and> (\<forall>k < Suc n. snd (g k) \<le> snd (g b)) \<and> (\<forall>k < b. snd (g k) < snd (g b))"
proof -
  have "map g [0..<Suc n] = g 0 # map g [1..<Suc n]"
    by (simp add: upt_conv_Cons del: upt_Suc)
  then have "best_of (map g [0..<Suc n])
      = foldl (\<lambda>prev cur. if snd cur > snd prev then cur else prev) (g 0) (map g [1..<Suc n])"
    by (simp add: best_of_def del: upt_Suc)
  then show ?thesis using foldl_best [of n g] by (auto simp: less_Suc_eq_le)
qed


subsection \<open>The files a smart-mode run leaves\<close>

lemma zip_picks_map:
  "zip picks [0..<5] = map (\<lambda>k. (to_double ((real k + 1 / 2) / 5), k)) [0..<5]"
  by (simp add: picks_def zip_map1 zip_same_conv_map del: upt.simps)

lemma foldl_update_other:
  "p \<notin> P ` set ks \<Longrightarrow> foldl (\<lambda>f k. f(P k \<mapsto> F k)) fsys ks p = fsys p"
  by (induction ks arbitrary: fsys) auto

lemma foldl_update_hit:
  assumes "\<And>i j. P i = P j \<Longrightarrow> i = j" and "j \<in> set ks"
  shows "foldl (\<lambda>f k. f(P k \<mapsto> F k)) fsys ks (P j) = Some (F j)"
  using assms(2)
proof (induction ks rule: rev_induct)
  case Nil
  then show ?case by simp
next
  case (snoc x xs)
  show ?case
  proof (cases "x = j")
    case True
    then show ?thesis by simp
  next
    case False
    then have "P x \<noteq> P j" using assms(1) by blast
    moreover have "j \<in> set xs" using snoc.prems False by simp
    ultimately show ?thesis using snoc.IH by simp
  qed
qed

lemma foldl_unlink:
  "foldl (\<lambda>f c. unlink e (fst c) f) fsys cs p =
     (if p \<in> fst ` set cs \<and> unlink_ok e p then None else fsys p)"
  by (induction cs arbitrary: fsys) (auto simp: unlink_def)

lemma clampTime_bounds:
  "0 < d \<Longrightarrow> 1 \<le> clampTime v d \<and> clampTime v d \<le> max 1 (to_double (d - to_double (2 / 10)))"
  by (auto simp: clampTime_def)

lemma clampTime_cases:
  "0 < d \<Longrightarrow>
   clampTime v d =
     (if v < 1 then 1
      else if max 1 (to_double (d - to_double (2 / 10))) < v
        then max 1 (to_double (d - to_double (2 / 10)))
      else v)"
  by (auto simp: clampTime_def min_def max_def)

subsection \<open>Selection\<close>

text \<open>
  Claim C7. In smart mode with a positive duration \<open>d\<close>, candidate \<open>k\<close> (for \<open>k\<close> from 0
  to 4) is extracted at the time \<open>pickTime d k\<close>, the duration times \<open>(k + 1/2) / 5\<close>,
  clamped into the interval from 1 to \<open>maxTime d\<close>: a time below 1 becomes 1, a time above
  \<open>maxTime d\<close> becomes \<open>maxTime d\<close>, any other time is kept. When the five extractions
  succeed with sizes \<open>sz k\<close> and the rename succeeds, the operation succeeds and the output
  file is candidate \<open>b\<close>, where \<open>b\<close> is the first index of the largest size. The
  temporary file of \<open>b\<close> is gone, every other temporary file whose deletion succeeds is
  gone, one whose deletion fails stays as it was written without failing the operation,
  and no other file changes.
\<close>

theorem smart_selection:
  assumes smart: "SMART_THUMB e" and pos: "0 < d" and mk: "mkdir_ok e (dirname out)"
    and ex: "\<forall>k<5. ffmpeg e (toFixed3 (clampTime (pickTime d k) d)) inp (tmpPath out k)
                    = Some (sz k)"
    and rn: "\<forall>k<5. rename_ok e (tmpPath out k) out"
  shows "(\<forall>k<5. clampTime (pickTime d k) d =
                  (if pickTime d k < 1 then 1
                   else if maxTime d < pickTime d k then maxTime d
                   else pickTime d k))
       \<and> (\<forall>k<5. 1 \<le> clampTime (pickTime d k) d \<and> clampTime (pickTime d k) d \<le> maxTime d)
       \<and> (\<exists>b<5. (\<forall>k<5. sz k \<le> sz b) \<and> (\<forall>k<b. sz k < sz b)
            \<and> fst (makeThumbnail e inp out (Some d) fsys) = None
            \<and> snd (makeThumbnail e inp out (Some d) fsys) out =
                Some \<lparr>source = inp, seek = toFixed3 (clampTime (pickTime d b) d), bytes = sz b\<rparr>
            \<and> snd (makeThumbnail e inp out (Some d) fsys) (tmpPath out b) = None
            \<and> (\<forall>k<5. k \<noteq> b \<and> unlink_ok e (tmpPath out k) \<longrightarrow>
                  snd (makeThumbnail e inp out (Some d) fsys) (tmpPath out k) = None)
            \<and> (\<forall>k<5. k \<noteq> b \<and> \<not> unlink_ok e (tmpPath out k) \<longrightarrow>
                  snd (makeThumbnail e inp out (Some d) fsys) (tmpPath out k) =
                    Some \<lparr>source = inp, seek = toFixed3 (clampTime (pickTime d k) d),
                          bytes = sz k\<rparr>)
            \<and> (\<forall>p. p \<noteq> out \<and> p \<notin> tmpPath out ` {0..<5} \<longrightarrow>
                  snd (makeThumbnail e inp out (Some d) fsys) p = fsys p))"
proof -
  define T where "T k = clampTime (pickTime d k) d" for k :: nat
  define F where "F k = \<lparr>source = inp, seek = toFixed3 (T k), bytes = sz k\<rparr>" for k
  define P where "P = tmpPath out"
  define g where "g k = (P k, sz k)" for k
  have Pinj: "\<And>i j. P i = P j \<Longrightarrow> i = j" by (simp add: P_def tmpPath_inj)
  have Pout: "\<And>k. P k \<noteq> out" by (simp add: P_def tmpPath_not_out)
  have cand: "candidate e inp out d (to_double ((real k + 1 / 2) / 5), k) = Some (g k)"
    if "k < 5" for k
    using ex that by (simp add: candidate_def g_def P_def pickTime_def)
  have wr: "written e inp out d f (to_double ((real k + 1 / 2) / 5), k) = f(P k \<mapsto> F k)"
    if "k < 5" for k f
    using cand [OF that] by (simp add: written_def g_def F_def T_def pickTime_def)
  have results: "map (candidate e inp out d) (zip picks [0..<5]) = map (\<lambda>k. Some (g k)) [0..<5]"
    unfolding zip_picks_map map_map by (rule map_cong) (simp_all add: cand)
  have fs1: "foldl (written e inp out d) fsys (zip picks [0..<5])
               = foldl (\<lambda>f k. f(P k \<mapsto> F k)) fsys [0..<5]"
    unfolding zip_picks_map foldl_map by (rule foldl_cong) (simp_all add: wr)
  define fs1 where "fs1 = foldl (\<lambda>f k. f(P k \<mapsto> F k)) fsys [0..<5]"
  have "None \<notin> set (map (candidate e inp out d) (zip picks [0..<5]))"
    unfolding results by auto
  then have nn: "None \<notin> candidate e inp out d ` set (zip picks [0..<5])"
    by simp
  have cs: "map the (map (\<lambda>k. Some (g k)) [0..<5]) = map g [0..<5]" by simp
  have five: "[0..<5] = [0..<Suc 4]" by (simp add: eval_nat_numeral)
  obtain b where b: "b < 5" "best_of (map g [0..<5]) = g b"
    "\<forall>k<5. snd (g k) \<le> snd (g b)" "\<forall>k<b. snd (g k) < snd (g b)"
    using best_of_first_max [of 4 g] unfolding five by auto
  have rest: "filter (\<lambda>item. fst item \<noteq> fst (g b)) (map g [0..<5])
                = map g (filter (\<lambda>k. k \<noteq> b) [0..<5])"
    unfolding filter_map by (rule arg_cong [where f = "map g"], rule filter_cong)
      (auto simp: g_def dest: Pinj)
  have mt: "makeThumbnail e inp out (Some d) fsys =
              (None, foldl (\<lambda>f c. unlink e (fst c) f) (fs1(out := fs1 (P b), P b := None))
                       (map g (filter (\<lambda>k. k \<noteq> b) [0..<5])))"
    using smart pos mk rn b(1)
    by (simp add: makeThumbnail_def Let_def results fs1 nn cs b(2) rest fs1_def [symmetric]
        del: upt.simps set_upt map_map)
      (simp add: g_def P_def)
  have fs1_hit: "fs1 (P k) = Some (F k)" if "k < 5" for k
    unfolding fs1_def using that by (intro foldl_update_hit Pinj) simp_all
  have fs1_other: "fs1 p = fsys p" if "p \<notin> P ` {0..<5}" for p
    unfolding fs1_def using that by (intro foldl_update_other) simp
  have img: "fst ` set (map g (filter (\<lambda>k. k \<noteq> b) [0..<5])) = P ` ({0..<5} - {b})"
    by (auto simp: g_def image_iff)
  have final: "snd (makeThumbnail e inp out (Some d) fsys) p =
                 (if p \<in> P ` ({0..<5} - {b}) \<and> unlink_ok e p then None
                  else (fs1(out := fs1 (P b), P b := None)) p)" for p
    unfolding mt snd_conv foldl_unlink img ..
  have c0: "\<forall>k<5. T k = (if pickTime d k < 1 then 1
                          else if maxTime d < pickTime d k then maxTime d
                          else pickTime d k)"
    unfolding T_def maxTime_def using clampTime_cases [OF pos] by blast
  have c1: "\<forall>k<5. 1 \<le> T k \<and> T k \<le> maxTime d"
    unfolding T_def maxTime_def using clampTime_bounds [OF pos] by blast
  have out_notin: "out \<notin> P ` A" for A using Pout by auto
  have Pb_notin: "P b \<notin> P ` ({0..<5} - {b})" using Pinj by auto
  have r_out: "snd (makeThumbnail e inp out (Some d) fsys) out = Some (F b)"
    using fs1_hit [OF b(1)] Pout [of b] by (simp add: final out_notin)
  have r_b: "snd (makeThumbnail e inp out (Some d) fsys) (P b) = None"
    by (simp add: final Pb_notin)
  have r_ok: "snd (makeThumbnail e inp out (Some d) fsys) (P k) = None"
    if "k < 5" "k \<noteq> b" "unlink_ok e (P k)" for k
    using that by (simp add: final)
  have r_left: "snd (makeThumbnail e inp out (Some d) fsys) (P k) = Some (F k)"
    if "k < 5" "k \<noteq> b" "\<not> unlink_ok e (P k)" for k
  proof -
    have "P k \<noteq> P b" using that(2) Pinj by blast
    then show ?thesis using that fs1_hit [OF that(1)] Pout [of k] by (simp add: final)
  qed
  have r_other: "snd (makeThumbnail e inp out (Some d) fsys) p = fsys p"
    if "p \<noteq> out" "p \<notin> P ` {0..<5}" for p
  proof -
    have "p \<notin> P ` ({0..<5} - {b})" "p \<noteq> P b" using that(2) b(1) by auto
    then show ?thesis using that fs1_other [OF that(2)] by (simp add: final)
  qed
  have sel: "(\<forall>k<5. sz k \<le> sz b) \<and> (\<forall>k<b. sz k < sz b)"
    using b(3,4) by (simp add: g_def)
  have ok: "fst (makeThumbnail e inp out (Some d) fsys) = None" by (simp add: mt)
  have sel_all: "\<exists>b<5. (\<forall>k<5. sz k \<le> sz b) \<and> (\<forall>k<b. sz k < sz b)
            \<and> fst (makeThumbnail e inp out (Some d) fsys) = None
            \<and> snd (makeThumbnail e inp out (Some d) fsys) out = Some (F b)
            \<and> snd (makeThumbnail e inp out (Some d) fsys) (P b) = None
            \<and> (\<forall>k<5. k \<noteq> b \<and> unlink_ok e (P k) \<longrightarrow>
                  snd (makeThumbnail e inp out (Some d) fsys) (P k) = None)
            \<and> (\<forall>k<5. k \<noteq> b \<and> \<not> unlink_ok e (P k) \<longrightarrow>
                  snd (makeThumbnail e inp out (Some d) fsys) (P k) = Some (F k))
            \<and> (\<forall>p. p \<noteq> out \<and> p \<notin> P ` {0..<5} \<longrightarrow>
                  snd (makeThumbnail e inp out (Some d) fsys) p = fsys p)"
    using b(1) sel ok r_out r_b r_ok r_left r_other by blast
  show ?thesis
    using c0 c1 sel_all unfolding T_def F_def P_def by blast
qed

text \<open>
  Times as the source computes them: for a duration of 100 seconds, for one of a second
  and a half, where the first three candidates are raised to 1 and the last is lowered to
  1.3, and for the double nearest to 10.005, whose fourth candidate is
  7.003499999999999 and prints as 7.003.
\<close>

lemma seek_examples:
  "toFixed3 (clampTime (pickTime 100 (Suc 0)) 100) = ''30.000''"
  "toFixed3 (clampTime (pickTime 100 2) 100) = ''50.000''"
  "toFixed3 (clampTime (pickTime (3 / 2) (Suc 0)) (3 / 2)) = ''1.000''"
  "toFixed3 (clampTime (pickTime (3 / 2) 3) (3 / 2)) = ''1.050''"
  "toFixed3 (clampTime (pickTime (3 / 2) 4) (3 / 2)) = ''1.300''"
  "toFixed3 (clampTime (pickTime (to_double (10005 / 1000)) 3) (to_double (10005 / 1000)))
     = ''7.003''"
  by (simp_all add: pickTime_def clampTime_def toFixed3_def dec.simps pad3_def digit_char_def
      Let_def to_double_def to_double_pos_def scale.simps round_half_even_def)

theorem smart_selection_witness:
  "SMART_THUMB env_sizes \<and> (0::real) < 100 \<and> mkdir_ok env_sizes (dirname thumb_a)
   \<and> fst (makeThumbnail env_sizes ''/v/a.mp4'' thumb_a (Some 100) Map.empty) = None
   \<and> snd (makeThumbnail env_sizes ''/v/a.mp4'' thumb_a (Some 100) Map.empty) thumb_a
       = Some \<lparr>source = ''/v/a.mp4'', seek = ''30.000'', bytes = 40\<rparr>
   \<and> snd (makeThumbnail env_sizes ''/v/a.mp4'' thumb_a (Some 100) Map.empty) (thumb_a @ ''.tmp-0.jpg'') = None
   \<and> snd (makeThumbnail env_sizes ''/v/a.mp4'' thumb_a (Some 100) Map.empty) (thumb_a @ ''.tmp-1.jpg'') = None
   \<and> snd (makeThumbnail env_sizes ''/v/a.mp4'' thumb_a (Some 100) Map.empty) (thumb_a @ ''.tmp-2.jpg'')
       = Some \<lparr>source = ''/v/a.mp4'', seek = ''50.000'', bytes = 25\<rparr>
   \<and> snd (makeThumbnail env_sizes ''/v/a.mp4'' thumb_a (Some 100) Map.empty) (thumb_a @ ''.tmp-3.jpg'') = None
   \<and> snd (makeThumbnail env_sizes ''/v/a.mp4'' thumb_a (Some 100) Map.empty) (thumb_a @ ''.tmp-4.jpg'') = None
   \<and> SMART_THUMB env_short \<and> (0::real) < 3 / 2 \<and> mkdir_ok env_short (dirname thumb_a)
   \<and> fst (makeThumbnail env_short ''/v/a.mp4'' thumb_a (Some (3 / 2)) Map.empty) = None
   \<and> snd (makeThumbnail env_short ''/v/a.mp4'' thumb_a (Some (3 / 2)) Map.empty) thumb_a
       = Some \<lparr>source = ''/v/a.mp4'', seek = ''1.000'', bytes = 40\<rparr>
   \<and> snd (makeThumbnail env_short ''/v/a.mp4'' thumb_a (Some (3 / 2)) Map.empty) (thumb_a @ ''.tmp-3.jpg'')
       = Some \<lparr>source = ''/v/a.mp4'', seek = ''1.050'', bytes = 40\<rparr>
   \<and> snd (makeThumbnail env_short ''/v/a.mp4'' thumb_a (Some (3 / 2)) Map.empty) (thumb_a @ ''.tmp-4.jpg'')
       = Some \<lparr>source = ''/v/a.mp4'', seek = ''1.300'', bytes = 5\<rparr>"
proof -
  define sz :: "nat \<Rightarrow> nat" where "sz k = [10, 40, 25, 40, 5] ! k" for k
  define R where "R = makeThumbnail env_sizes ''/v/a.mp4'' thumb_a (Some 100) Map.empty"
  define S where "S = makeThumbnail env_short ''/v/a.mp4'' thumb_a (Some (3 / 2)) Map.empty"
  have five: "k = 0 \<or> k = 1 \<or> k = 2 \<or> k = 3 \<or> k = 4" if "k < 5" for k :: nat
    using that by arith
  have h: "SMART_THUMB env_sizes" "(0::real) < 100" "mkdir_ok env_sizes (dirname thumb_a)"
    by (simp_all add: env_sizes_def env_ok_def)
  have hs: "SMART_THUMB env_short" "(0::real) < 3 / 2" "mkdir_ok env_short (dirname thumb_a)"
    by (simp_all add: env_short_def env_sizes_def env_ok_def)
  have ex: "\<forall>k<5. ffmpeg env_sizes (toFixed3 (clampTime (pickTime 100 k) 100))
                     ''/v/a.mp4'' (tmpPath thumb_a k) = Some (sz k)"
  proof (intro allI impI)
    fix k :: nat assume "k < 5"
    from five [OF this] show "ffmpeg env_sizes (toFixed3 (clampTime (pickTime 100 k) 100))
                     ''/v/a.mp4'' (tmpPath thumb_a k) = Some (sz k)"
      by (elim disjE) (simp_all add: env_sizes_def env_ok_def tmpPath_simps sz_def)
  qed
  have exs: "\<forall>k<5. ffmpeg env_short (toFixed3 (clampTime (pickTime (3 / 2) k) (3 / 2)))
                     ''/v/a.mp4'' (tmpPath thumb_a k) = Some (sz k)"
  proof (intro allI impI)
    fix k :: nat assume "k < 5"
    from five [OF this] show "ffmpeg env_short (toFixed3 (clampTime (pickTime (3 / 2) k) (3 / 2)))
                     ''/v/a.mp4'' (tmpPath thumb_a k) = Some (sz k)"
      by (elim disjE) (simp_all add: env_short_def env_sizes_def env_ok_def tmpPath_simps sz_def)
  qed
  have rn: "\<forall>k<5. rename_ok env_sizes (tmpPath thumb_a k) thumb_a"
    by (simp add: env_sizes_def env_ok_def)
  have rns: "\<forall>k<5. rename_ok env_short (tmpPath thumb_a k) thumb_a"
    by (simp add: env_short_def env_sizes_def env_ok_def)
  have first: "c = Suc 0"
    if "c < 5" "\<forall>k<5. sz k \<le> sz c" "\<forall>k<c. sz k < sz c" for c
  proof -
    have "sz 1 \<le> sz c" using that(2) by simp
    moreover have "1 < c \<longrightarrow> sz 1 < sz c" using that(3) by simp
    ultimately show ?thesis using five [OF that(1)] by (auto simp: sz_def)
  qed
  obtain b where b: "b < 5" "\<forall>k<5. sz k \<le> sz b" "\<forall>k<b. sz k < sz b"
    and ok: "fst R = None"
    and inst: "snd R thumb_a = Some \<lparr>source = ''/v/a.mp4'',
        seek = toFixed3 (clampTime (pickTime 100 b) 100), bytes = sz b\<rparr>"
    and gone: "snd R (tmpPath thumb_a b) = None"
    and del: "\<forall>k<5. k \<noteq> b \<and> unlink_ok env_sizes (tmpPath thumb_a k) \<longrightarrow> snd R (tmpPath thumb_a k) = None"
    and left: "\<forall>k<5. k \<noteq> b \<and> \<not> unlink_ok env_sizes (tmpPath thumb_a k) \<longrightarrow>
        snd R (tmpPath thumb_a k) = Some \<lparr>source = ''/v/a.mp4'',
          seek = toFixed3 (clampTime (pickTime 100 k) 100), bytes = sz k\<rparr>"
    using smart_selection [OF h ex rn, of Map.empty] unfolding R_def by blast
  have b1: "b = Suc 0" using first [OF b] .
  obtain c where c: "c < 5" "\<forall>k<5. sz k \<le> sz c" "\<forall>k<c. sz k < sz c"
    and oks: "fst S = None"
    and insts: "snd S thumb_a = Some \<lparr>source = ''/v/a.mp4'',
        seek = toFixed3 (clampTime (pickTime (3 / 2) c) (3 / 2)), bytes = sz c\<rparr>"
    and lefts: "\<forall>k<5. k \<noteq> c \<and> \<not> unlink_ok env_short (tmpPath thumb_a k) \<longrightarrow>
        snd S (tmpPath thumb_a k) = Some \<lparr>source = ''/v/a.mp4'',
          seek = toFixed3 (clampTime (pickTime (3 / 2) k) (3 / 2)), bytes = sz k\<rparr>"
    using smart_selection [OF hs exs rns, of Map.empty] unfolding S_def by blast
  have c1: "c = Suc 0" using first [OF c] .
  have u: "unlink_ok env_sizes (tmpPath thumb_a 0)" "\<not> unlink_ok env_sizes (tmpPath thumb_a 2)"
    "unlink_ok env_sizes (tmpPath thumb_a 3)" "unlink_ok env_sizes (tmpPath thumb_a 4)"
    by (simp_all add: env_sizes_def env_ok_def tmpPath_simps)
  have us: "\<not> unlink_ok env_short (tmpPath thumb_a 3)" "\<not> unlink_ok env_short (tmpPath thumb_a 4)"
    by (simp_all add: env_short_def env_sizes_def env_ok_def tmpPath_simps)
  have d0: "snd R (tmpPath thumb_a 0) = None" using del u(1) b1 by simp
  have d2: "snd R (tmpPath thumb_a 2) = Some \<lparr>source = ''/v/a.mp4'',
          seek = toFixed3 (clampTime (pickTime 100 2) 100), bytes = sz 2\<rparr>"
    using left u(2) b1 by simp
  have d3: "snd R (tmpPath thumb_a 3) = None" using del u(3) b1 by simp
  have d4: "snd R (tmpPath thumb_a 4) = None" using del u(4) b1 by simp
  have s3: "snd S (tmpPath thumb_a 3) = Some \<lparr>source = ''/v/a.mp4'',
          seek = toFixed3 (clampTime (pickTime (3 / 2) 3) (3 / 2)), bytes = sz 3\<rparr>"
    using lefts us(1) c1 by simp
  have s4: "snd S (tmpPath thumb_a 4) = Some \<lparr>source = ''/v/a.mp4'',
          seek = toFixed3 (clampTime (pickTime (3 / 2) 4) (3 / 2)), bytes = sz 4\<rparr>"
    using lefts us(2) c1 by simp
  show ?thesis
    using h hs ok inst gone d0 d2 d3 d4 oks insts s3 s4
    unfolding R_def [symmetric] S_def [symmetric] b1 c1 tmpPath_simps seek_examples
    by (simp add: sz_def)
qed

section \<open>Range requests\<close>

subsection \<open>Integers as doubles\<close>

lemma round53_small: "n < 2 ^ 53 \<Longrightarrow> round53 n = Some n"
proof -
  assume n: "n < 2 ^ 53"
  then have sh: "shift53 n = 0" by (subst shift53.simps) simp
  have "(2::nat) ^ 53 \<le> 2 ^ 1024" by (rule power_increasing) simp_all
  then have "\<not> 2 ^ 1024 \<le> n" using n by linarith
  then show ?thesis by (simp add: round53_def sh)
qed

lemma shift53_div: "2 ^ 52 \<le> n \<Longrightarrow> 2 ^ 52 \<le> n div 2 ^ shift53 n"
proof (induction n rule: shift53.induct)
  case (1 n)
  show ?case
  proof (cases "n < 2 ^ 53")
    case True
    then have "shift53 n = 0" by (subst shift53.simps) simp
    then show ?thesis using "1.prems" by simp
  next
    case False
    then have sh: "shift53 n = Suc (shift53 (n div 2))" by (subst shift53.simps) simp
    have "2 ^ 52 \<le> n div 2" using False by simp
    then have "2 ^ 52 \<le> (n div 2) div 2 ^ shift53 (n div 2)"
      using "1.IH" False by simp
    moreover have "n div 2 ^ Suc (shift53 (n div 2)) = (n div 2) div 2 ^ shift53 (n div 2)"
      by (simp add: div_mult2_eq)
    ultimately show ?thesis by (simp only: sh)
  qed
qed

lemma round53_big:
  assumes "2 ^ 53 \<le> n"
  shows "round53 n = None \<or> (\<exists>m. round53 n = Some m \<and> 2 ^ 53 \<le> m)"
proof -
  define sh where "sh = shift53 n"
  define q where "q = n div 2 ^ sh"
  define m where "m = (if 2 ^ sh < 2 * (n mod 2 ^ sh) \<or> (2 * (n mod 2 ^ sh) = 2 ^ sh \<and> odd q)
                       then q + 1 else q) * 2 ^ sh"
  have "1 \<le> sh" unfolding sh_def using assms by (subst shift53.simps) simp
  then have p: "(2::nat) \<le> 2 ^ sh" using power_increasing [of 1 sh "2::nat"] by simp
  have "(2::nat) ^ 52 \<le> n" using assms by simp
  then have "2 ^ 52 \<le> q" unfolding q_def sh_def by (rule shift53_div)
  then have "2 ^ 52 * 2 \<le> q * 2 ^ sh" using p by (rule mult_le_mono)
  moreover have "q * 2 ^ sh \<le> m" unfolding m_def by simp
  ultimately have "2 ^ 53 \<le> m" by simp
  moreover have "round53 n = (if 2 ^ 1024 \<le> m then None else Some m)"
    by (simp add: round53_def Let_def m_def q_def sh_def)
  ultimately show ?thesis by auto
qed

lemma double_of_nat_small:
  "int n \<le> MAX_SAFE_INTEGER \<Longrightarrow> double_of_int (int n) = Finite (int n)"
proof -
  assume "int n \<le> MAX_SAFE_INTEGER"
  then have "n < 2 ^ 53" by (simp add: MAX_SAFE_INTEGER_def)
  then show ?thesis by (simp add: double_of_int_def round53_small)
qed

lemma double_of_int_small:
  "0 \<le> i \<Longrightarrow> i \<le> MAX_SAFE_INTEGER \<Longrightarrow> double_of_int i = Finite i"
  using double_of_nat_small [of "nat i"] by simp

lemma double_of_nat_big:
  assumes "MAX_SAFE_INTEGER < int n"
  shows "double_of_int (int n) = PosInfinity
         \<or> (\<exists>m. double_of_int (int n) = Finite m \<and> MAX_SAFE_INTEGER < m)"
proof -
  have "2 ^ 53 \<le> n" using assms by (simp add: MAX_SAFE_INTEGER_def)
  from round53_big [OF this] show ?thesis
  proof
    assume "round53 n = None"
    then show ?thesis by (simp add: double_of_int_def)
  next
    assume "\<exists>m. round53 n = Some m \<and> 2 ^ 53 \<le> m"
    then obtain m where m: "round53 n = Some m" "2 ^ 53 \<le> m" by blast
    then have "MAX_SAFE_INTEGER < int m" by (simp add: MAX_SAFE_INTEGER_def)
    then show ?thesis using m(1) by (simp add: double_of_int_def)
  qed
qed


subsection \<open>Parsing the header\<close>

lemma digit_not_other: "is_digit c \<Longrightarrow> \<not> is_ws c \<and> c \<noteq> CHR ''-'' \<and> c \<noteq> CHR ''+''"
  by (auto simp: is_digit_def is_ws_def)

lemma dec_no_dash: "CHR ''-'' \<notin> set (dec n)"
  using dec_digits [of n] digit_not_other by blast

lemma parseInt_dec: "parseInt (dec n) = double_of_int (int n)"
proof -
  obtain c cs where d: "dec n = c # cs" using dec_nonempty [of n] by (cases "dec n") auto
  have dig: "\<forall>x \<in> set (dec n). is_digit x" by (rule dec_digits)
  then have c: "is_digit c" using d by simp
  have 1: "dropWhile is_ws (dec n) = dec n"
    using c digit_not_other d by simp
  have 2: "takeWhile is_digit (dec n) = dec n"
    using dig by (simp add: takeWhile_eq_all_conv)
  have 3: "hd (dec n) \<noteq> CHR ''-''" "hd (dec n) \<noteq> CHR ''+''"
    using c digit_not_other d by auto
  show ?thesis
    using dec_nonempty [of n] by (simp add: parseInt_def Let_def 1 2 3 digits_val_dec)
qed

lemma parseInt_dec_safe:
  "int n \<le> MAX_SAFE_INTEGER \<Longrightarrow> parseInt (dec n) = Finite (int n)"
  by (simp add: parseInt_dec double_of_nat_small)


lemma remove_first_bytes: "remove_first ''bytes='' (''bytes='' @ rest) = rest"
  by (simp add: startsWith_def)

lemma split_range_closed:
  "splitc CHR ''-'' (dec s @ ''-'' @ dec e) = [dec s, dec e]"
  using dec_no_dash by (simp add: splitc_append_sep splitc_no_sep_id)


subsection \<open>The handler on a file that is there\<close>







lemma GET_closed_out_of_range:
  assumes "p \<noteq> []" "resolveSafePath tdir p = Inr a" "contents a = Some content"
    and sz: "int (length content) \<le> MAX_SAFE_INTEGER"
    and s: "s < length content" and e: "MAX_SAFE_INTEGER < int e"
    and fin: "double_of_int (int e) \<noteq> PosInfinity"
  shows "GET tdir contents (Some p) (Some (''bytes='' @ dec s @ ''-'' @ dec e)) =
           Inl ERR_OUT_OF_RANGE"
proof -
  define hdr where "hdr = ''bytes='' @ dec s @ ''-'' @ dec e"
  have parts: "splitc CHR ''-'' (remove_first ''bytes='' hdr) = [dec s, dec e]"
    unfolding hdr_def remove_first_bytes by (rule split_range_closed)
  have hn: "hdr \<noteq> []" by (simp add: hdr_def)
  have ne: "dec e \<noteq> []" by (rule dec_nonempty)
  have ss: "int s \<le> MAX_SAFE_INTEGER" using s sz by simp
  have ps: "parseInt (dec s) = Finite (int s)" using ss by (rule parseInt_dec_safe)
  obtain m where m: "double_of_int (int e) = Finite m" "MAX_SAFE_INTEGER < m"
    using double_of_nat_big [OF e] fin by blast
  have pe: "parseInt (dec e) = Finite m" by (simp add: parseInt_dec m)
  have "GET tdir contents (Some p) (Some hdr) = Inl ERR_OUT_OF_RANGE"
    using assms(1-3) ne hn s ss m(2)
    by (simp add: GET_def Let_def parts ps pe double_of_nat_small [OF sz] createReadStream_def)
  then show ?thesis unfolding hdr_def .
qed




subsection \<open>Concrete requests\<close>

lemma resolve_v:
  "resolveSafePath ''/v'' ''a.mp4'' = Inr ''/v/a.mp4''"
  "resolveSafePath ''/v'' ''k.mp4'' = Inr ''/v/k.mp4''"
  by code_simp+


lemma contents_a_simps:
  "contents_a ''/v/a.mp4'' = Some ''abcdefghij''"
  "contents_a ''/v/k.mp4'' = Some (replicate 1000 CHR ''x'')"
  by (simp_all add: contents_a_def)

lemma dec_examples:
  "dec 0 = ''0''" "dec 2 = ''2''" "dec 10 = ''10''" "dec 11 = ''11''" "dec 18 = ''18''"
  "dec 19 = ''19''" "dec 100 = ''100''" "dec 200 = ''200''" "dec 299 = ''299''"
  "dec 1000 = ''1000''" "dec 2000 = ''2000''" "dec 800 = ''800''" "dec 999 = ''999''"
  "dec 9007199254740993 = ''9007199254740993''"
  by (simp_all add: dec.simps digit_char_def)



lemma safe_sizes:
  "int (length ''abcdefghij'') \<le> MAX_SAFE_INTEGER"
  "int (length (replicate 1000 CHR ''x'')) \<le> MAX_SAFE_INTEGER"
  by (simp_all add: MAX_SAFE_INTEGER_def)

lemma double_9007199254740993:
  "double_of_int 9007199254740993 = Finite 9007199254740992"
  "double_of_int (int 9007199254740993) = Finite 9007199254740992"
  by (simp_all add: double_of_int_def round53_def shift53.simps Let_def)

subsection \<open>Claim C5\<close>




subsection \<open>Claim C10\<close>



text \<open>
  The claim as stated fails on an end above \<open>2^53 - 1\<close>: the bounds of the claim hold for
  \<^verbatim>\<open>bytes=0-9007199254740993\<close> on a file of ten bytes, \<^verbatim>\<open>parseInt\<close> gives the double
  \<open>9007199254740992\<close>, and the handler throws instead of answering 206.
\<close>

theorem range_end_beyond_safe_integer:
  "(0::nat) < length ''abcdefghij'' \<and> length ''abcdefghij'' \<le> (9007199254740993::nat)
   \<and> contents_a ''/v/a.mp4'' = Some ''abcdefghij''
   \<and> parseInt ''9007199254740993'' = Finite 9007199254740992
   \<and> GET ''/v'' contents_a (Some ''a.mp4'') (Some ''bytes=0-9007199254740993'')
        = Inl ERR_OUT_OF_RANGE"
proof -
  have hd: "''bytes='' @ dec 0 @ ''-'' @ dec 9007199254740993 = ''bytes=0-9007199254740993''"
    by (simp add: dec_examples)
  have n: "''a.mp4'' \<noteq> []" by simp
  have b: "(0::nat) < length ''abcdefghij''" "MAX_SAFE_INTEGER < int 9007199254740993"
    "double_of_int (int 9007199254740993) \<noteq> PosInfinity"
    by (simp_all add: MAX_SAFE_INTEGER_def double_9007199254740993)
  have p: "parseInt ''9007199254740993'' = Finite 9007199254740992"
    using parseInt_dec [of 9007199254740993]
    by (simp only: dec_examples double_9007199254740993(2))
  have g: "GET ''/v'' contents_a (Some ''a.mp4'') (Some ''bytes=0-9007199254740993'')
        = Inl ERR_OUT_OF_RANGE"
    using GET_closed_out_of_range [where contents = contents_a and s = 0
        and e = 9007199254740993, OF n resolve_v(1) contents_a_simps(1) safe_sizes(1) b]
    unfolding hd .
  show ?thesis using b(1) p g by (simp add: contents_a_simps)
qed

section \<open>Opening a store of the old schema\<close>

lemma initDb_batch_migrates:
  assumes "''thumbError'' \<notin> set (map fst (columns t))"
  shows "initDb_batch (Some t) =
           Some \<lparr>columns = columns t @ [(''thumbError'', SqlInt 0)],
                 rows = map (\<lambda>r. r(''thumbError'' \<mapsto> SqlInt 0)) (rows t)\<rparr>"
  using assms
  by (simp add: initDb_batch_def createTableIfNotExists_def table_info_def addColumn_def Let_def)

lemma initDb_keeps_table: "initDb (Some t) = Some t"
  by (simp add: initDb_def createTableIfNotExists_def)

text \<open>
  Claim C9 on the code. A store created by \<open>initDb_old\<close> has a \<^verbatim>\<open>videos\<close> table without
  \<^verbatim>\<open>thumbError\<close>. The server's \<open>initDb\<close> leaves such a store as it is, and the first
  query of a pass, which selects \<^verbatim>\<open>thumbError\<close>, fails on it. The batch tool's
  \<open>initDb_batch\<close> adds the column with default 0, keeps the row, and the same query
  succeeds.
\<close>

theorem initDb_server_no_migration:
  "initDb_old None = Some \<lparr>columns = schema_without_thumbError, rows = []\<rparr>
   \<and> initDb old_store = old_store
   \<and> existingRows (initDb old_store) = Inl NoSuchColumn
   \<and> existingRows (initDb_batch old_store) =
       Inr [[SqlText ''a.mp4'', SqlInt 1000, SqlText ''thumbs/da39a3ee5e6b4b0d.jpg'',
             SqlReal 10, SqlInt 0]]"
proof -
  have 1: "initDb_old None = Some \<lparr>columns = schema_without_thumbError, rows = []\<rparr>"
    by (simp add: initDb_old_def createTableIfNotExists_def)
  have 2: "initDb old_store = old_store"
    by (simp add: old_store_def initDb_keeps_table)
  have 3: "existingRows old_store = Inl NoSuchColumn"
    by (simp add: existingRows_def selectFrom_def old_store_def schema_without_thumbError_def)
  have n: "''thumbError'' \<notin> set (map fst schema_without_thumbError)"
    by (simp add: schema_without_thumbError_def)
  have 4: "existingRows (initDb_batch old_store) =
       Inr [[SqlText ''a.mp4'', SqlInt 1000, SqlText ''thumbs/da39a3ee5e6b4b0d.jpg'',
             SqlReal 10, SqlInt 0]]"
    unfolding old_store_def
    by (subst initDb_batch_migrates)
      (simp_all add: n existingRows_def selectFrom_def schema_without_thumbError_def)
  show ?thesis using 1 2 3 4 by simp
qed

section \<open>A second pass\<close>

lemma pass_unfold:
  assumes "mkdir_ok e (thumbsImageDir e)" and "mkdir_ok e (thumbsDir e)"
  shows "pass e found st =
           foldl (\<lambda>s f. indexSingle e f \<lfloor>mtimeMs (stat f)\<rfloor> (getThumbRelPath e (rel f)) s)
             (st\<lparr>db := (\<lambda>p. if p \<in> set (map rel found) then db st p else None)\<rparr>)
             (tasks e False found st)"
  using assms by (simp add: pass_def buildIndex_def Let_def)

lemma pass_rows:
  assumes d: "distinct (map rel found)"
    and mk: "mkdir_ok e (thumbsImageDir e)" "mkdir_ok e (thumbsDir e)"
    and f: "f \<in> set found"
  shows "\<exists>r. db (pass e found st) (rel f) = Some r
             \<and> \<not> (case updatedAt r of None \<Rightarrow> 0 | Some u \<Rightarrow> u) < \<lfloor>mtimeMs (stat f)\<rfloor>"
proof (cases "f \<in> set (tasks e False found st)")
  case True
  then show ?thesis
    unfolding pass_unfold [OF mk]
    using foldl_indexSingle_row [OF tasks_distinct [OF d] True] by fastforce
next
  case False
  have "rel f \<notin> rel ` set (tasks e False found st)"
  proof
    assume "rel f \<in> rel ` set (tasks e False found st)"
    then obtain g where g: "g \<in> set (tasks e False found st)" "rel g = rel f" by auto
    then have "g \<in> set found" using tasks_subset by blast
    then have "g = f" using d f g(2) by (meson distinct_map inj_onD)
    then show False using g(1) False by simp
  qed
  then have "db (pass e found st) (rel f) = db st (rel f)"
    unfolding pass_unfold [OF mk] using f by (simp add: foldl_indexSingle_other)
  moreover have "\<not> needsUpdate False (db st (rel f))
                    (fileExists (disk st) (thumbAbsOf e f)) \<lfloor>mtimeMs (stat f)\<rfloor>"
    using False f by (simp add: tasks_def)
  ultimately show ?thesis
    by (auto simp: needsUpdate_def Let_def split: option.splits)
qed

lemma pass_dom:
  assumes mk: "mkdir_ok e (thumbsImageDir e)" "mkdir_ok e (thumbsDir e)"
    and p: "p \<notin> rel ` set found"
  shows "db (pass e found st) p = None"
proof -
  have "p \<notin> rel ` set (tasks e False found st)" using p tasks_subset by blast
  then show ?thesis
    unfolding pass_unfold [OF mk] using p by (simp add: foldl_indexSingle_other)
qed

text \<open>
  Claim C6, as amended. After a pass over the files found (distinct relative paths, the
  two cache directories created), every file found has a row. A second pass over the same
  files puts on its work list exactly the files whose row has a \<^verbatim>\<open>thumbError\<close> other
  than 1 and whose thumbnail file is missing or whose stored duration is null or zero.
  When there is no such file, the second pass dispatches no work and leaves the state,
  and with it every \<^verbatim>\<open>updatedAt\<close>, as it was.
\<close>

theorem second_pass:
  assumes d: "distinct (map rel found)"
    and mk: "mkdir_ok e (thumbsImageDir e)" "mkdir_ok e (thumbsDir e)"
  shows "(\<forall>f \<in> set found. \<exists>r. db (pass e found st) (rel f) = Some r)
       \<and> tasks e False found (pass e found st) =
           filter (\<lambda>f. case db (pass e found st) (rel f) of
                         None \<Rightarrow> False
                       | Some r \<Rightarrow> thumbError r \<noteq> Some 1
                           \<and> (\<not> fileExists (disk (pass e found st)) (thumbAbsOf e f)
                               \<or> duration r = None \<or> duration r = Some 0)) found
       \<and> (tasks e False found (pass e found st) = [] \<longrightarrow>
            buildIndex e False found (pass e found st) = (None, pass e found st))"
proof -
  define s1 where "s1 = pass e found st"
  have rows: "\<exists>r. db s1 (rel f) = Some r
             \<and> \<not> (case updatedAt r of None \<Rightarrow> 0 | Some u \<Rightarrow> u) < \<lfloor>mtimeMs (stat f)\<rfloor>"
    if "f \<in> set found" for f
    unfolding s1_def using pass_rows [OF d mk that] .
  have 1: "\<forall>f \<in> set found. \<exists>r. db s1 (rel f) = Some r" using rows by blast
  have 2: "tasks e False found s1 =
           filter (\<lambda>f. case db s1 (rel f) of
                         None \<Rightarrow> False
                       | Some r \<Rightarrow> thumbError r \<noteq> Some 1
                           \<and> (\<not> fileExists (disk s1) (thumbAbsOf e f)
                               \<or> duration r = None \<or> duration r = Some 0)) found"
    unfolding tasks_def
  proof (rule filter_cong [OF refl])
    fix f assume "f \<in> set found"
    from rows [OF this] show "needsUpdate False (db s1 (rel f)) (fileExists (disk s1) (thumbAbsOf e f))
            \<lfloor>mtimeMs (stat f)\<rfloor> =
          (case db s1 (rel f) of
             None \<Rightarrow> False
           | Some r \<Rightarrow> thumbError r \<noteq> Some 1
               \<and> (\<not> fileExists (disk s1) (thumbAbsOf e f)
                   \<or> duration r = None \<or> duration r = Some 0))"
      by (auto simp: needsUpdate_def Let_def)
  qed
  have dom: "(\<lambda>p. if p \<in> rel ` set found then db s1 p else None) = db s1"
  proof
    fix p show "(if p \<in> rel ` set found then db s1 p else None) = db s1 p"
      unfolding s1_def using pass_dom [OF mk, of p found st] by simp
  qed
  have 3: "tasks e False found s1 = [] \<longrightarrow> buildIndex e False found s1 = (None, s1)"
    using mk by (simp add: buildIndex_def Let_def dom)
  show ?thesis using 1 2 3 unfolding s1_def by blast
qed


lemma thumbAbsOf_file_a:
  assumes "targetDir e = ''/v''"
    and "sha1_hex e = (\<lambda>s. ''da39a3ee5e6b4b0d3255bfef95601890afd80709'')"
  shows "thumbAbsOf e file_a = thumb_a"
  using assms by (simp add: thumbAbsOf_def getThumbRelPath_def thumbsDir_def thumb_paths_a)

lemma pass_file_a:
  assumes "targetDir e = ''/v''" and "\<not> SMART_THUMB e"
    and "sha1_hex e = (\<lambda>s. ''da39a3ee5e6b4b0d3255bfef95601890afd80709'')"
    and "ffmpeg e = (\<lambda>ss i out. Some 7)" and "mkdir_ok e = (\<lambda>p. True)"
  shows "pass e [file_a] empty_state =
           \<lparr>db = [''a.mp4'' \<mapsto>
                   \<lparr>folder = [], name = ''a'', duration = probeDuration e ''/v/a.mp4'',
                    createdAt = Some 900, thumb = Some ''thumbs/da39a3ee5e6b4b0d.jpg'',
                    updatedAt = Some 1000, thumbError = Some 0\<rparr>],
            disk = [thumb_a \<mapsto> frame_a]\<rparr>"
  using assms
  by (simp add: pass_def buildIndex_def tasks_def needsUpdate_def empty_state_def
      indexSingle_def makeThumbnail_def upsertSuccess_def getThumbRelPath_def thumbsDir_def
      file_a_simps names_a thumb_paths_a frame_a_def Let_def)
    (simp add: fun_eq_iff)

theorem second_pass_witness:
  "distinct (map rel [file_a])
   \<and> mkdir_ok env_ok (thumbsImageDir env_ok) \<and> mkdir_ok env_ok (thumbsDir env_ok)
   \<and> db (pass env_ok [file_a] empty_state) ''a.mp4'' =
        Some \<lparr>folder = [], name = ''a'', duration = Some 100, createdAt = Some 900,
              thumb = Some ''thumbs/da39a3ee5e6b4b0d.jpg'', updatedAt = Some 1000,
              thumbError = Some 0\<rparr>
   \<and> tasks env_ok False [file_a] (pass env_ok [file_a] empty_state) = []
   \<and> buildIndex env_ok False [file_a] (pass env_ok [file_a] empty_state)
       = (None, pass env_ok [file_a] empty_state)"
proof -
  have h: "distinct (map rel [file_a])"
    "mkdir_ok env_ok (thumbsImageDir env_ok)" "mkdir_ok env_ok (thumbsDir env_ok)"
    by (simp_all add: env_ok_def)
  have e: "targetDir env_ok = ''/v''" "\<not> SMART_THUMB env_ok"
    "sha1_hex env_ok = (\<lambda>s. ''da39a3ee5e6b4b0d3255bfef95601890afd80709'')"
    "ffmpeg env_ok = (\<lambda>ss i out. Some 7)" "mkdir_ok env_ok = (\<lambda>p. True)"
    by (simp_all add: env_ok_def)
  have pd: "probeDuration env_ok ''/v/a.mp4'' = Some 100"
    by (simp add: probeDuration_def env_ok_def)
  note p = pass_file_a [OF e, unfolded pd]
  note t = thumbAbsOf_file_a [OF e(1) e(3)]
  have r: "db (pass env_ok [file_a] empty_state) ''a.mp4'' =
        Some \<lparr>folder = [], name = ''a'', duration = Some 100, createdAt = Some 900,
              thumb = Some ''thumbs/da39a3ee5e6b4b0d.jpg'', updatedAt = Some 1000,
              thumbError = Some 0\<rparr>"
    by (simp add: p)
  have x: "fileExists (disk (pass env_ok [file_a] empty_state)) thumb_a"
    by (simp add: p fileExists_def)
  have "tasks env_ok False [file_a] (pass env_ok [file_a] empty_state) = []"
    using second_pass [OF h, of empty_state] r x by (simp add: t file_a_simps)
  then show ?thesis
    using h r second_pass [OF h, of empty_state] by simp
qed

text \<open>
  The claim as stated fails: when the probe fails, or reports zero, and the thumbnail is
  made, the first pass stores a null, or zero, duration with \<^verbatim>\<open>thumbError\<close> 0, and the
  second pass dispatches the file again.
\<close>

theorem second_pass_repeats_work:
  "db (pass (env_ok\<lparr>ffprobe := (\<lambda>p. None)\<rparr>) [file_a] empty_state) ''a.mp4'' =
        Some \<lparr>folder = [], name = ''a'', duration = None, createdAt = Some 900,
              thumb = Some ''thumbs/da39a3ee5e6b4b0d.jpg'', updatedAt = Some 1000,
              thumbError = Some 0\<rparr>
   \<and> tasks (env_ok\<lparr>ffprobe := (\<lambda>p. None)\<rparr>) False [file_a]
        (pass (env_ok\<lparr>ffprobe := (\<lambda>p. None)\<rparr>) [file_a] empty_state) = [file_a]
   \<and> db (pass (env_ok\<lparr>ffprobe := (\<lambda>p. Some (Finite 0))\<rparr>) [file_a] empty_state) ''a.mp4'' =
        Some \<lparr>folder = [], name = ''a'', duration = Some 0, createdAt = Some 900,
              thumb = Some ''thumbs/da39a3ee5e6b4b0d.jpg'', updatedAt = Some 1000,
              thumbError = Some 0\<rparr>
   \<and> tasks (env_ok\<lparr>ffprobe := (\<lambda>p. Some (Finite 0))\<rparr>) False [file_a]
        (pass (env_ok\<lparr>ffprobe := (\<lambda>p. Some (Finite 0))\<rparr>) [file_a] empty_state) = [file_a]"
proof -
  define e1 where "e1 = env_ok\<lparr>ffprobe := (\<lambda>p. None)\<rparr>"
  define e2 where "e2 = env_ok\<lparr>ffprobe := (\<lambda>p. Some (Finite 0))\<rparr>"
  have a1: "targetDir e1 = ''/v''" "\<not> SMART_THUMB e1"
    "sha1_hex e1 = (\<lambda>s. ''da39a3ee5e6b4b0d3255bfef95601890afd80709'')"
    "ffmpeg e1 = (\<lambda>ss i out. Some 7)" "mkdir_ok e1 = (\<lambda>p. True)"
    by (simp_all add: e1_def env_ok_def)
  have a2: "targetDir e2 = ''/v''" "\<not> SMART_THUMB e2"
    "sha1_hex e2 = (\<lambda>s. ''da39a3ee5e6b4b0d3255bfef95601890afd80709'')"
    "ffmpeg e2 = (\<lambda>ss i out. Some 7)" "mkdir_ok e2 = (\<lambda>p. True)"
    by (simp_all add: e2_def env_ok_def)
  have p1: "probeDuration e1 ''/v/a.mp4'' = None"
    and p2: "probeDuration e2 ''/v/a.mp4'' = Some 0"
    by (simp_all add: probeDuration_def e1_def e2_def env_ok_def)
  note s1 = pass_file_a [OF a1, unfolded p1]
  note s2 = pass_file_a [OF a2, unfolded p2]
  have t1: "tasks e1 False [file_a] (pass e1 [file_a] empty_state) = [file_a]"
    by (simp add: s1 tasks_def needsUpdate_def file_a_simps)
  have t2: "tasks e2 False [file_a] (pass e2 [file_a] empty_state) = [file_a]"
    by (simp add: s2 tasks_def needsUpdate_def file_a_simps)
  show ?thesis
    using t1 t2 unfolding e1_def [symmetric] e2_def [symmetric] by (simp add: s1 s2)
qed

end
